theory Spec2Isabelle
  imports Complex_Main "HOL-Library.AList"
begin

section \<open>JavaScript values used by the Markov model\<close>

text \<open>
  The repository holds five variants of one class, \<^verbatim>\<open>AsyncMarkov\<close>:
  \<^verbatim>\<open>src/index.js\<close> (plain objects, no invalidation, no edge counter),
  \<^verbatim>\<open>src/unnamed/part_000\<close> (TypeScript, \<^verbatim>\<open>Map\<close> of nodes, edge counter),
  \<^verbatim>\<open>src/unnamed/part_001\<close> (as part_000, with another \<^verbatim>\<open>calculateWeights\<close>),
  \<^verbatim>\<open>src/unnamed/part_003\<close> (\<^verbatim>\<open>Map\<close> of nodes, no edge counter) and
  \<^verbatim>\<open>src/unnamed/part_002\<close> (plain objects, fed from strings, buffers and streams).
  Definitions without a prefix embed part_000; the prefixes \<open>p1_\<close>, \<open>p3_\<close> and
  \<open>index_\<close> mark the definitions that embed part_001, part_003 and index.js.
  part_002 is not embedded.

  A JavaScript string is modelled as a \<^typ>\<open>string\<close> whose characters are the code
  units below 256. A JavaScript number is modelled exactly (no rounding): a rational,
  one of the two infinities, or NaN. Sums and products are exact, so they are those of
  the code wherever the code's double arithmetic is exact, as it is on the integer
  counts and totals below \<open>2^53\<close> that \<^verbatim>\<open>add\<close> produces; where the code rounds (counts
  loaded from a snapshot beyond that range or with fractions, a product with
  \<^verbatim>\<open>Math.random()\<close> that rounds up to an integer) the model can differ from it.
\<close>

type_synonym word = string

datatype number = Fin rat | PosInf | NegInf | NaN

text \<open>\<^verbatim>\<open>x + y\<close> on numbers.\<close>

fun num_add :: "number \<Rightarrow> number \<Rightarrow> number" where
  "num_add NaN _ = NaN"
| "num_add _ NaN = NaN"
| "num_add (Fin a) (Fin b) = Fin (a + b)"
| "num_add PosInf NegInf = NaN"
| "num_add NegInf PosInf = NaN"
| "num_add PosInf _ = PosInf"
| "num_add _ PosInf = PosInf"
| "num_add NegInf _ = NegInf"
| "num_add _ NegInf = NegInf"

text \<open>\<^verbatim>\<open>x < y\<close> on numbers: false as soon as one side is NaN.\<close>

fun num_less :: "number \<Rightarrow> number \<Rightarrow> bool" where
  "num_less NaN _ = False"
| "num_less _ NaN = False"
| "num_less (Fin a) (Fin b) = (a < b)"
| "num_less NegInf NegInf = False"
| "num_less NegInf _ = True"
| "num_less _ NegInf = False"
| "num_less PosInf _ = False"
| "num_less _ PosInf = True"

text \<open>\<^verbatim>\<open>x <= 0\<close>, \<^verbatim>\<open>Math.trunc(x)\<close>, \<^verbatim>\<open>Number.isFinite(x)\<close> and \<^verbatim>\<open>x !== y\<close>.\<close>

fun num_le_zero :: "number \<Rightarrow> bool" where
  "num_le_zero (Fin a) = (a \<le> 0)"
| "num_le_zero NegInf = True"
| "num_le_zero PosInf = False"
| "num_le_zero NaN = False"

fun trunc :: "number \<Rightarrow> number" where
  "trunc (Fin a) = Fin (if 0 \<le> a then of_int \<lfloor>a\<rfloor> else of_int \<lceil>a\<rceil>)"
| "trunc x = x"

fun isFinite :: "number \<Rightarrow> bool" where
  "isFinite (Fin a) = True"
| "isFinite x = False"

fun strict_neq :: "number \<Rightarrow> number \<Rightarrow> bool" where
  "strict_neq NaN _ = True"
| "strict_neq _ NaN = True"
| "strict_neq x y = (x \<noteq> y)"

text \<open>
  \<^verbatim>\<open>Math.random() * x\<close>, where the value \<open>u\<close> drawn by \<^verbatim>\<open>Math.random()\<close> is a
  rational; the generator promises \<open>0 \<le> u < 1\<close>.
\<close>

fun random_times :: "rat \<Rightarrow> number \<Rightarrow> number" where
  "random_times u (Fin a) = Fin (u * a)"
| "random_times u NaN = NaN"
| "random_times u PosInf = (if u = 0 then NaN else if 0 < u then PosInf else NegInf)"
| "random_times u NegInf = (if u = 0 then NaN else if 0 < u then NegInf else PosInf)"

text \<open>
  \<^verbatim>\<open>!value\<close> for a value of type \<^verbatim>\<open>Word | null\<close>: \<^verbatim>\<open>null\<close> and the empty string
  are falsy.
\<close>

fun falsy :: "word option \<Rightarrow> bool" where
  "falsy None = True"
| "falsy (Some w) = (w = [])"

subsection \<open>Own property keys of an ordinary object\<close>

text \<open>
  An object literal \<^verbatim>\<open>{}\<close> is modelled by the list of its own properties in creation
  order. \<^verbatim>\<open>Object.keys\<close> lists the keys that are array indices (canonical decimal
  numerals below \<open>2^32 - 1\<close>) first, in ascending numeric order, and the other keys
  after them, in creation order.
\<close>

definition is_digit :: "char \<Rightarrow> bool" where
  "is_digit c = (48 \<le> (of_char c :: int) \<and> (of_char c :: int) \<le> 57)"

definition decimal_value :: "string \<Rightarrow> int" where
  "decimal_value s = fold (\<lambda>c n. 10 * n + ((of_char c :: int) - 48)) s 0"

definition array_index :: "string \<Rightarrow> int option" where
  "array_index s =
     (if s \<noteq> [] \<and> list_all is_digit s \<and> (s = ''0'' \<or> hd s \<noteq> CHR ''0'')
         \<and> decimal_value s < 4294967295
      then Some (decimal_value s) else None)"

definition object_keys :: "(string \<times> 'v) list \<Rightarrow> string list" where
  "object_keys obj =
     (let ks = map fst obj
      in sort_key (\<lambda>k. the (array_index k)) (filter (\<lambda>k. array_index k \<noteq> None) ks)
         @ filter (\<lambda>k. array_index k = None) ks)"

text \<open>
  The object \<^verbatim>\<open>sums\<close> (\<^verbatim>\<open>mapped\<close> in index.js) is keyed by numbers: the property
  name is the decimal text of the number, so the model keys it by the number itself.
  \<^verbatim>\<open>Number(key)\<close> gives the number back.
\<close>

fun number_index :: "number \<Rightarrow> rat option" where
  "number_index (Fin a) =
     (if a = of_int \<lfloor>a\<rfloor> \<and> 0 \<le> a \<and> a < 4294967295 then Some a else None)"
| "number_index x = None"

definition number_keys :: "(number \<times> 'v) list \<Rightarrow> number list" where
  "number_keys obj =
     (let ks = map fst obj
      in sort_key (\<lambda>k. the (number_index k)) (filter (\<lambda>k. number_index k \<noteq> None) ks)
         @ filter (\<lambda>k. number_index k = None) ks)"

text \<open>
  The object \<^verbatim>\<open>related\<close> is created by the literal \<^verbatim>\<open>{}\<close>, so a read of a name that
  is not an own property finds the properties of \<^verbatim>\<open>Object.prototype\<close>.
\<close>

definition object_prototype_names :: "string list" where
  "object_prototype_names =
     [''constructor'', ''__defineGetter__'', ''__defineSetter__'', ''hasOwnProperty'',
      ''__lookupGetter__'', ''__lookupSetter__'', ''isPrototypeOf'',
      ''propertyIsEnumerable'', ''toString'', ''valueOf'', ''__proto__'',
      ''toLocaleString'']"

datatype jsvalue = Undefined | Number number | Inherited

text \<open>\<^verbatim>\<open>related[key]\<close>.\<close>

definition related_get :: "(word \<times> number) list \<Rightarrow> word \<Rightarrow> jsvalue" where
  "related_get rel key =
     (case map_of rel key of
        Some v \<Rightarrow> Number v
      | None \<Rightarrow> if key \<in> set object_prototype_names then Inherited else Undefined)"

text \<open>
  \<^verbatim>\<open>related[key] = v\<close> for a number \<open>v\<close>. Assigning a number to \<^verbatim>\<open>__proto__\<close> calls
  the inherited setter, which ignores a value that is not an object.
\<close>

definition related_set :: "(word \<times> number) list \<Rightarrow> word \<Rightarrow> number \<Rightarrow> (word \<times> number) list" where
  "related_set rel key v = (if key = ''__proto__'' then rel else AList.update key v rel)"

text \<open>\<^verbatim>\<open>related[key]++\<close>: the old value is converted to a number first.\<close>

fun to_number :: "jsvalue \<Rightarrow> number" where
  "to_number (Number v) = v"
| "to_number Undefined = NaN"
| "to_number Inherited = NaN"

definition related_increment :: "(word \<times> number) list \<Rightarrow> word \<Rightarrow> (word \<times> number) list" where
  "related_increment rel key = related_set rel key (num_add (to_number (related_get rel key)) (Fin 1))"

subsection \<open>Regular expressions and string methods\<close>

text \<open>\<^verbatim>\<open>/[?!.]/.test(s)\<close>.\<close>

definition sentenceRegex_test :: "string \<Rightarrow> bool" where
  "sentenceRegex_test s = (\<exists>c \<in> set s. c = CHR ''?'' \<or> c = CHR ''!'' \<or> c = CHR ''.'')"

text \<open>The class \<^verbatim>\<open>\s\<close> on code units below 256; \<^verbatim>\<open>trim\<close> strips the same set.\<close>

definition is_space :: "char \<Rightarrow> bool" where
  "is_space c = ((of_char c :: int) \<in> {9, 10, 11, 12, 13, 32, 160})"

definition trim :: "string \<Rightarrow> string" where
  "trim s = rev (dropWhile is_space (rev (dropWhile is_space s)))"

text \<open>\<^verbatim>\<open>s.replace(/\s+/g, " ")\<close>: every maximal run of white space becomes one blank.\<close>

function replace_whitespace :: "string \<Rightarrow> string" where
  "replace_whitespace [] = []"
| "replace_whitespace (c # cs) =
     (if is_space c then CHR '' '' # replace_whitespace (dropWhile is_space cs)
      else c # replace_whitespace cs)"
  by pat_completeness auto
termination
  by (relation "measure length") (auto simp: length_dropWhile_le le_imp_less_Suc)

text \<open>\<^verbatim>\<open>s.split(" ")\<close>: the empty string splits into one empty piece.\<close>

fun split_blank :: "string \<Rightarrow> string list" where
  "split_blank [] = [[]]"
| "split_blank (c # cs) =
     (case split_blank cs of
        [] \<Rightarrow> (if c = CHR '' '' then [[], []] else [[c]])
      | p # ps \<Rightarrow> if c = CHR '' '' then [] # p # ps else (c # p) # ps)"

text \<open>\<^verbatim>\<open>output.join(" ")\<close>: a \<^verbatim>\<open>null\<close> element is written as the empty string.\<close>

fun join_blank :: "word option list \<Rightarrow> string" where
  "join_blank [] = []"
| "join_blank [x] = (case x of None \<Rightarrow> [] | Some w \<Rightarrow> w)"
| "join_blank (x # xs) = (case x of None \<Rightarrow> [] | Some w \<Rightarrow> w) @ CHR '' '' # join_blank xs"

section \<open>The model of part\_000\<close>

text \<open>
  The interface \<^verbatim>\<open>Node\<close>. The field \<^verbatim>\<open>sums\<close> is called \<open>sums_obj\<close> (\<open>sums\<close> is
  taken by the library); \<open>None\<close> is \<^verbatim>\<open>null\<close>.
\<close>

record node =
  total :: number
  mapped :: bool
  sums_obj :: "(number \<times> word) list option"
  related :: "(word \<times> number) list"

text \<open>
  The private fields of the class. \<open>nodes\<close> is the \<^verbatim>\<open>Map\<close>, as the list of its
  entries in insertion order; \<^verbatim>\<open>Map.set\<close> is \<^const>\<open>AList.update\<close>.
\<close>

record markov =
  nodes :: "(word \<times> node) list"
  hasSentences :: bool
  edges :: number

definition new_markov :: markov where
  "new_markov = \<lparr>nodes = [], hasSentences = False, edges = Fin 0\<rparr>"

definition initNode :: node where
  "initNode = \<lparr>total = Fin 0, mapped = False, sums_obj = None, related = []\<rparr>"

text \<open>
  The body of the loop of \<^verbatim>\<open>add\<close>, for the pair \<open>(first, second)\<close>. The node is a
  shared object: the assignments to its fields are written back into the map.
  \<open>init\<close> is the node that a new word gets.
\<close>

definition add_pair :: "node \<Rightarrow> word \<Rightarrow> word \<Rightarrow> markov \<Rightarrow> markov" where
  "add_pair init first second m =
     (let ns = (if map_of (nodes m) first = None then AList.update first init (nodes m)
                else nodes m)
      in case map_of ns first of
           None \<Rightarrow> m\<lparr>nodes := ns\<rparr>
         | Some n \<Rightarrow>
             let rel = (if related_get (related n) second = Undefined
                        then related_set (related n) second (Fin 0) else related n);
                 n' = n\<lparr>total := num_add (total n) (Fin 1), mapped := False,
                        related := related_increment rel second\<rparr>
             in m\<lparr>nodes := AList.update first n' ns, edges := num_add (edges m) (Fin 1)\<rparr>)"

fun add_loop :: "node \<Rightarrow> word list \<Rightarrow> markov \<Rightarrow> markov" where
  "add_loop init (first # second # rest) m =
     add_loop init (second # rest) (add_pair init first second m)"
| "add_loop init data m = m"

definition tokens :: "string \<Rightarrow> word list" where
  "tokens s = filter (\<lambda>t. t \<noteq> []) (split_blank (replace_whitespace (trim s)))"

definition add_with :: "node \<Rightarrow> string \<Rightarrow> markov \<Rightarrow> markov" where
  "add_with init s m =
     (let m1 = (if \<not> hasSentences m then m\<lparr>hasSentences := sentenceRegex_test s\<rparr> else m);
          data = tokens s
      in if length data < 2 then m1 else add_loop init data m1)"

definition add :: "string \<Rightarrow> markov \<Rightarrow> markov" where
  "add = add_with initNode"

text \<open>The getters \<^verbatim>\<open>size\<close> and \<^verbatim>\<open>edges\<close> (the latter is the field \<^const>\<open>edges\<close>).\<close>

definition size_of :: "markov \<Rightarrow> nat" where
  "size_of m = length (nodes m)"

subsection \<open>Compiling and sampling a node\<close>

text \<open>
  The loop of \<^verbatim>\<open>calculateWeights\<close> over \<^verbatim>\<open>Object.keys(node.related)\<close>, with the
  running \<open>total\<close> and the object \<open>sums\<close> built so far.
\<close>

fun weights_loop ::
  "word list \<Rightarrow> (word \<times> number) list \<Rightarrow> number \<Rightarrow> (number \<times> word) list \<Rightarrow> (number \<times> word) list" where
  "weights_loop [] rel tot s = s"
| "weights_loop (key # keys) rel tot s =
     (let value = to_number (related_get rel key);
          tot' = num_add tot value
      in weights_loop keys rel tot' (AList.update tot' key s))"

definition calculateWeights :: "node \<Rightarrow> bool \<Rightarrow> node" where
  "calculateWeights n force =
     (if mapped n \<and> \<not> force then n
      else n\<lparr>sums_obj := Some (weights_loop (object_keys (related n)) (related n) (Fin 0) []),
             mapped := True\<rparr>)"

text \<open>The loop of \<^verbatim>\<open>selectWeighted\<close> over \<^verbatim>\<open>Object.keys(node.sums)\<close>.\<close>

fun select_loop :: "number \<Rightarrow> number list \<Rightarrow> (number \<times> word) list \<Rightarrow> word option" where
  "select_loop roll [] s = None"
| "select_loop roll (pick # keys) s =
     (if num_less roll pick then map_of s pick else select_loop roll keys s)"

datatype error = InvalidArgument | EmptyModel | UnsupportedOperation | TypeError

text \<open>
  \<^verbatim>\<open>selectWeighted(object)\<close>, with \<open>u\<close> the value that \<^verbatim>\<open>Math.random()\<close> returns.
  The result comes with the node as the call leaves it. \<^verbatim>\<open>Object.keys(null)\<close>
  throws a \<^verbatim>\<open>TypeError\<close>.
\<close>

definition selectWeighted :: "rat \<Rightarrow> node \<Rightarrow> (error + word option) \<times> node" where
  "selectWeighted u object =
     (let n = (if \<not> mapped object then calculateWeights object False else object);
          roll = trunc (random_times u (total n))
      in case sums_obj n of
           None \<Rightarrow> (Inl TypeError, n)
         | Some s \<Rightarrow> (Inr (select_loop roll (number_keys s) s), n))"

subsection \<open>Generation\<close>

text \<open>\<^verbatim>\<open>keys[index]\<close>: \<^verbatim>\<open>undefined\<close> (here \<open>None\<close>) outside the array.\<close>

fun array_at :: "'a list \<Rightarrow> number \<Rightarrow> 'a option" where
  "array_at xs (Fin a) =
     (if a = of_int \<lfloor>a\<rfloor> \<and> 0 \<le> a \<and> nat \<lfloor>a\<rfloor> < length xs then Some (xs ! nat \<lfloor>a\<rfloor>) else None)"
| "array_at xs x = None"

text \<open>
  The calls of \<^verbatim>\<open>Math.random()\<close> are numbered: \<open>rnd k\<close> is the value of call number
  \<open>k\<close>, and the state of a generation is the number of calls made so far together
  with the model.
\<close>

fun generateWord ::
  "(nat \<Rightarrow> rat) \<Rightarrow> word option \<Rightarrow> nat \<times> markov \<Rightarrow> (error + word option) \<times> (nat \<times> markov)" where
  "generateWord rnd rootw (k, m) =
     (if length (nodes m) = 0 then (Inl EmptyModel, (k, m))
      else
        let keys = map fst (nodes m);
            index = trunc (random_times (rnd k) (Fin (of_nat (length keys))));
            rootw1 = (if falsy rootw then array_at keys index else rootw);
            k1 = (if falsy rootw then Suc k else k);
            found = (case rootw1 of None \<Rightarrow> None
                     | Some r \<Rightarrow> map_option (Pair r) (map_of (nodes m) r))
        in (case found of
              None \<Rightarrow> (Inr None, (k1, m))
            | Some (r, object) \<Rightarrow>
                (let (res, object') = selectWeighted (rnd k1) object
                 in (res, (Suc k1, m\<lparr>nodes := AList.update r object' (nodes m)\<rparr>)))))"

declare generateWord.simps [simp del]

text \<open>The test on \<^verbatim>\<open>amount\<close> that both generators start with.\<close>

definition invalid_amount :: "number \<Rightarrow> bool" where
  "invalid_amount amount =
     (num_le_zero amount \<or> strict_neq (trunc amount) amount \<or> \<not> isFinite amount)"

text \<open>The number of rounds of \<^verbatim>\<open>while (amount--)\<close> for a positive integer.\<close>

fun rounds :: "number \<Rightarrow> nat" where
  "rounds (Fin a) = nat \<lfloor>a\<rfloor>"
| "rounds x = 0"

fun generateWords_loop ::
  "(nat \<Rightarrow> rat) \<Rightarrow> bool \<Rightarrow> nat \<Rightarrow> word option \<Rightarrow> word option list \<Rightarrow> nat \<times> markov
     \<Rightarrow> (error + word option list) \<times> (nat \<times> markov)" where
  "generateWords_loop rnd stop 0 current output st = (Inr output, st)"
| "generateWords_loop rnd stop (Suc n) current output st =
     (case generateWord rnd current st of
        (Inl e, st1) \<Rightarrow> (Inl e, st1)
      | (Inr c1, st1) \<Rightarrow>
          if falsy c1 then
            (if stop then (Inr output, st1)
             else (case generateWord rnd None st1 of
                     (Inl e, st2) \<Rightarrow> (Inl e, st2)
                   | (Inr c2, st2) \<Rightarrow> generateWords_loop rnd stop n c2 (output @ [c2]) st2))
          else generateWords_loop rnd stop n c1 (output @ [c1]) st1)"

text \<open>
  \<^verbatim>\<open>generateWords(amount, root, {stop})\<close>. \<open>generateWords_output\<close> is the array
  \<^verbatim>\<open>output\<close> at the \<^verbatim>\<open>return\<close>, \<open>generateWords\<close> the string returned.
\<close>

definition generateWords_output ::
  "(nat \<Rightarrow> rat) \<Rightarrow> number \<Rightarrow> word option \<Rightarrow> bool \<Rightarrow> nat \<times> markov
     \<Rightarrow> (error + word option list) \<times> (nat \<times> markov)" where
  "generateWords_output rnd amount rootw stop st =
     (if invalid_amount amount then (Inl InvalidArgument, st)
      else generateWords_loop rnd stop (rounds amount) rootw
             (if falsy rootw then [] else [rootw]) st)"

definition generateWords ::
  "(nat \<Rightarrow> rat) \<Rightarrow> number \<Rightarrow> word option \<Rightarrow> bool \<Rightarrow> nat \<times> markov
     \<Rightarrow> (error + string) \<times> (nat \<times> markov)" where
  "generateWords rnd amount rootw stop st =
     (case generateWords_output rnd amount rootw stop st of
        (Inl e, st') \<Rightarrow> (Inl e, st')
      | (Inr output, st') \<Rightarrow> (Inr (join_blank output), st'))"

text \<open>
  The loop \<^verbatim>\<open>while (amount > 0)\<close> of \<^verbatim>\<open>generateSentences\<close> need not end: it gets
  fuel, and \<open>None\<close> says that the fuel ran out.
\<close>

fun generateSentences_loop ::
  "nat \<Rightarrow> (nat \<Rightarrow> rat) \<Rightarrow> nat \<Rightarrow> word option \<Rightarrow> word option list \<Rightarrow> nat \<times> markov
     \<Rightarrow> ((error + word option list) \<times> (nat \<times> markov)) option" where
  "generateSentences_loop fuel rnd 0 current output st = Some (Inr output, st)"
| "generateSentences_loop 0 rnd (Suc n) current output st = None"
| "generateSentences_loop (Suc fuel) rnd (Suc n) current output st =
     (case generateWord rnd current st of
        (Inl e, st1) \<Rightarrow> Some (Inl e, st1)
      | (Inr c1, st1) \<Rightarrow>
          generateSentences_loop fuel rnd
            (if \<not> falsy c1 \<and> sentenceRegex_test (the c1) then n else Suc n)
            c1 (output @ [c1]) st1)"

definition generateSentences ::
  "nat \<Rightarrow> (nat \<Rightarrow> rat) \<Rightarrow> number \<Rightarrow> word option \<Rightarrow> nat \<times> markov
     \<Rightarrow> ((error + string) \<times> (nat \<times> markov)) option" where
  "generateSentences fuel rnd amount rootw st =
     (if \<not> hasSentences (snd st) then Some (Inl UnsupportedOperation, st)
      else if invalid_amount amount then Some (Inl InvalidArgument, st)
      else (case generateSentences_loop fuel rnd (rounds amount) rootw
                   (if falsy rootw then [] else [rootw]) st of
              None \<Rightarrow> None
            | Some (Inl e, st') \<Rightarrow> Some (Inl e, st')
            | Some (Inr output, st') \<Rightarrow> Some (Inr (join_blank output), st')))"

subsection \<open>Export, load and reset\<close>

definition finalize :: "markov \<Rightarrow> markov" where
  "finalize m = m\<lparr>nodes := map (\<lambda>(w, n). (w, calculateWeights n False)) (nodes m)\<rparr>"

text \<open>
  The type \<^verbatim>\<open>Representation\<close>. \<open>r_edges\<close> is \<open>None\<close> when the field \<^verbatim>\<open>edges\<close> is
  absent or not of type \<^verbatim>\<open>number\<close>.
\<close>

record representation =
  r_edges :: "number option"
  r_words :: "(word \<times> node) list"
  r_hasSentences :: bool

definition toJSON :: "markov \<Rightarrow> representation \<times> markov" where
  "toJSON m =
     (let m' = finalize m
      in (\<lparr>r_edges = Some (edges m'), r_words = nodes m', r_hasSentences = hasSentences m'\<rparr>, m'))"

text \<open>\<^verbatim>\<open>map.clear()\<close>.\<close>

definition Map_clear :: "('k \<times> 'v) list \<Rightarrow> ('k \<times> 'v) list" where
  "Map_clear entries = []"

definition reset :: "markov \<Rightarrow> markov" where
  "reset m = m\<lparr>nodes := Map_clear (nodes m)\<rparr>"

text \<open>\<^verbatim>\<open>new Map(entries)\<close>.\<close>

definition new_Map :: "('k \<times> 'v) list \<Rightarrow> ('k \<times> 'v) list" where
  "new_Map entries = fold (\<lambda>(k, v) acc. AList.update k v acc) entries []"

text \<open>
  \<^verbatim>\<open>load(input)\<close> for an input that is a \<^verbatim>\<open>Representation\<close> (the text encoding is
  left out). The loaded nodes are taken as values: the model does not follow the
  sharing of the node objects between the input and the instance.
\<close>

definition load :: "representation \<Rightarrow> markov \<Rightarrow> markov" where
  "load data m =
     (let m1 = reset m;
          m2 = m1\<lparr>hasSentences := r_hasSentences data\<rparr>;
          m3 = m2\<lparr>nodes := new_Map (r_words data)\<rparr>
      in case r_edges data of
           Some e \<Rightarrow> m3\<lparr>edges := e\<rparr>
         | None \<Rightarrow> m3\<lparr>edges := fold (\<lambda>(w, n) e. num_add e (total n)) (nodes m3) (edges m3)\<rparr>)"

section \<open>The model of part\_001\<close>

text \<open>
  part\_001 is part\_000 with two changes: a new node starts with \<^verbatim>\<open>sums: {}\<close>, and
  \<^verbatim>\<open>calculateWeights\<close> has no assignment \<^verbatim>\<open>node.sums = {}\<close>, so it writes into the
  object that the node already has. Writing a property of \<^verbatim>\<open>null\<close> throws.
\<close>

definition p1_initNode :: node where
  "p1_initNode = \<lparr>total = Fin 0, mapped = False, sums_obj = Some [], related = []\<rparr>"

definition p1_add :: "string \<Rightarrow> markov \<Rightarrow> markov" where
  "p1_add = add_with p1_initNode"

definition p1_calculateWeights :: "node \<Rightarrow> bool \<Rightarrow> error + node" where
  "p1_calculateWeights n force =
     (if mapped n \<and> \<not> force then Inr n
      else case sums_obj n of
             None \<Rightarrow> (if object_keys (related n) = [] then Inr (n\<lparr>mapped := True\<rparr>)
                       else Inl TypeError)
           | Some s \<Rightarrow>
               Inr (n\<lparr>sums_obj := Some (weights_loop (object_keys (related n)) (related n) (Fin 0) s),
                       mapped := True\<rparr>))"

definition p1_selectWeighted :: "rat \<Rightarrow> node \<Rightarrow> (error + word option) \<times> node" where
  "p1_selectWeighted u object =
     (case (if \<not> mapped object then p1_calculateWeights object False else Inr object) of
        Inl e \<Rightarrow> (Inl e, object)
      | Inr n \<Rightarrow>
          (let roll = trunc (random_times u (total n))
           in case sums_obj n of
                None \<Rightarrow> (Inl TypeError, n)
              | Some s \<Rightarrow> (Inr (select_loop roll (number_keys s) s), n)))"

text \<open>\<^verbatim>\<open>finalize()\<close> of part\_001; an exception ends the loop.\<close>

fun p1_finalize_nodes :: "(word \<times> node) list \<Rightarrow> error + (word \<times> node) list" where
  "p1_finalize_nodes [] = Inr []"
| "p1_finalize_nodes ((w, n) # rest) =
     (case p1_calculateWeights n False of
        Inl e \<Rightarrow> Inl e
      | Inr n' \<Rightarrow> (case p1_finalize_nodes rest of
                     Inl e \<Rightarrow> Inl e
                   | Inr rest' \<Rightarrow> Inr ((w, n') # rest')))"

definition p1_finalize :: "markov \<Rightarrow> error + markov" where
  "p1_finalize m =
     (case p1_finalize_nodes (nodes m) of Inl e \<Rightarrow> Inl e | Inr ns \<Rightarrow> Inr (m\<lparr>nodes := ns\<rparr>))"

section \<open>The model of part\_003\<close>

text \<open>
  part\_003 keeps a \<^verbatim>\<open>Map\<close> of the same nodes and the flag, and has no edge counter.
  Its \<^verbatim>\<open>reset\<close> empties \<^verbatim>\<open>related\<close> in every node before it clears the map.
\<close>

record p3_markov =
  p3_words :: "(word \<times> node) list"
  p3_hasSentences :: bool

definition p3_reset :: "p3_markov \<Rightarrow> p3_markov" where
  "p3_reset m =
     m\<lparr>p3_words := Map_clear (map (\<lambda>(w, n). (w, n\<lparr>related := []\<rparr>)) (p3_words m))\<rparr>"

definition p3_size :: "p3_markov \<Rightarrow> nat" where
  "p3_size m = length (p3_words m)"

section \<open>The model of index.js\<close>

text \<open>
  In index.js a node has no flag: \<^verbatim>\<open>mapped\<close> is \<^verbatim>\<open>null\<close> (\<open>None\<close>) or the object of
  thresholds itself. \<^verbatim>\<open>#words\<close> is the object without prototype that the class
  creates, or what \<^verbatim>\<open>load\<close> found in the field \<^verbatim>\<open>words\<close>: \<^verbatim>\<open>undefined\<close> (\<open>None\<close>), or
  a parsed object, which inherits from \<^verbatim>\<open>Object.prototype\<close> (\<open>i_inherits\<close>).
\<close>

record inode =
  i_total :: number
  i_related :: "(word \<times> number) list"
  i_mapped :: "(number \<times> word) list option"

record index_markov =
  i_words :: "(word \<times> inode) list option"
  i_inherits :: bool
  i_hasSentences :: bool

definition index_new :: index_markov where
  "index_new = \<lparr>i_words = Some [], i_inherits = False, i_hasSentences = False\<rparr>"

definition index_initNode :: inode where
  "index_initNode = \<lparr>i_total = Fin 0, i_related = [], i_mapped = None\<rparr>"

text \<open>
  \<^verbatim>\<open>this.#words[key]\<close>: a node of its own, a value inherited from
  \<^verbatim>\<open>Object.prototype\<close> (a function, or the prototype itself), or \<^verbatim>\<open>undefined\<close>.
\<close>

datatype words_value = NoNode | OwnNode inode | InheritedValue

definition words_get :: "bool \<Rightarrow> (word \<times> inode) list \<Rightarrow> word \<Rightarrow> words_value" where
  "words_get inherits ws key =
     (case map_of ws key of
        Some n \<Rightarrow> OwnNode n
      | None \<Rightarrow> if inherits \<and> key \<in> set object_prototype_names then InheritedValue else NoNode)"

text \<open>
  The body of the loop of \<^verbatim>\<open>add\<close> on the object \<^verbatim>\<open>#words\<close>. There is no assignment
  to \<^verbatim>\<open>mapped\<close> in it. On an inherited value \<^verbatim>\<open>this.#words[first].related\<close> is
  \<^verbatim>\<open>undefined\<close>, and reading a property of it throws.
\<close>

definition index_add_pair ::
  "bool \<Rightarrow> word \<Rightarrow> word \<Rightarrow> (word \<times> inode) list \<Rightarrow> error + (word \<times> inode) list" where
  "index_add_pair inherits first second ws =
     (let ws1 = (if words_get inherits ws first = NoNode
                 then AList.update first index_initNode ws else ws)
      in case words_get inherits ws1 first of
           NoNode \<Rightarrow> Inr ws1
         | InheritedValue \<Rightarrow> Inl TypeError
         | OwnNode n \<Rightarrow>
             let rel = (if related_get (i_related n) second = Undefined
                        then related_set (i_related n) second (Fin 0) else i_related n);
                 n1 = n\<lparr>i_related := rel\<rparr>;
                 n2 = n1\<lparr>i_total := num_add (i_total n1) (Fin 1)\<rparr>;
                 n3 = n2\<lparr>i_related := related_increment (i_related n2) second\<rparr>
             in Inr (AList.update first n3 ws1))"

text \<open>The loop of \<^verbatim>\<open>add\<close>; an exception ends it and keeps what the rounds before did.\<close>

fun index_add_loop ::
  "bool \<Rightarrow> word list \<Rightarrow> (word \<times> inode) list \<Rightarrow> error option \<times> (word \<times> inode) list" where
  "index_add_loop inherits (first # second # rest) ws =
     (case index_add_pair inherits first second ws of
        Inl e \<Rightarrow> (Some e, ws)
      | Inr ws' \<Rightarrow> index_add_loop inherits (second # rest) ws')"
| "index_add_loop inherits data ws = (None, ws)"

text \<open>
  \<^verbatim>\<open>add(string)\<close>: no \<^verbatim>\<open>trim\<close> and no filter here. The first component is the
  error thrown, if any (a property read on \<^verbatim>\<open>undefined\<close>).
\<close>

definition index_add :: "string \<Rightarrow> index_markov \<Rightarrow> error option \<times> index_markov" where
  "index_add s m =
     (let m1 = (if \<not> i_hasSentences m then m\<lparr>i_hasSentences := sentenceRegex_test s\<rparr> else m);
          data = split_blank (replace_whitespace s)
      in if length data < 2 then (None, m1)
         else case i_words m1 of
                None \<Rightarrow> (Some TypeError, m1)
              | Some ws \<Rightarrow>
                  (let (e, ws') = index_add_loop (i_inherits m1) data ws
                   in (e, m1\<lparr>i_words := Some ws'\<rparr>)))"

definition index_calculateWeights :: "inode \<Rightarrow> inode" where
  "index_calculateWeights object =
     object\<lparr>i_mapped :=
       Some (weights_loop (object_keys (i_related object)) (i_related object) (Fin 0) [])\<rparr>"

definition index_selectWeighted :: "rat \<Rightarrow> inode \<Rightarrow> word option \<times> inode" where
  "index_selectWeighted u object =
     (let n = (if i_mapped object = None then index_calculateWeights object else object);
          roll = trunc (random_times u (i_total n))
      in case i_mapped n of
           None \<Rightarrow> (None, n)
         | Some s \<Rightarrow> (select_loop roll (number_keys s) s, n))"

text \<open>
  \<^verbatim>\<open>generateWord(root)\<close>. \<^verbatim>\<open>this.#words[root]\<close> with \<^verbatim>\<open>root\<close> undefined reads the
  property named \<^verbatim>\<open>undefined\<close>. An inherited value is truthy and goes to
  \<^verbatim>\<open>selectWeighted\<close>, where \<^verbatim>\<open>calculateWeights\<close> throws at
  \<^verbatim>\<open>Object.keys(object.related)\<close>, before the call of \<^verbatim>\<open>Math.random()\<close>; what that
  call writes on the built-in object before it throws is not part of the model.
\<close>

fun index_generateWord ::
  "(nat \<Rightarrow> rat) \<Rightarrow> word option \<Rightarrow> nat \<times> index_markov
     \<Rightarrow> (error + word option) \<times> (nat \<times> index_markov)" where
  "index_generateWord rnd rootw (k, m) =
     (case i_words m of
        None \<Rightarrow> (Inl TypeError, (k, m))
      | Some ws \<Rightarrow>
          (if length (object_keys ws) = 0 then (Inl EmptyModel, (k, m))
           else
             let keys = object_keys ws;
                 index = trunc (random_times (rnd k) (Fin (of_nat (length keys))));
                 r = (if falsy rootw
                      then (case array_at keys index of None \<Rightarrow> ''undefined'' | Some w \<Rightarrow> w)
                      else the rootw);
                 k1 = (if falsy rootw then Suc k else k)
             in (case words_get (i_inherits m) ws r of
                   NoNode \<Rightarrow> (Inr None, (k1, m))
                 | InheritedValue \<Rightarrow> (Inl TypeError, (k1, m))
                 | OwnNode object \<Rightarrow>
                     (let (res, object') = index_selectWeighted (rnd k1) object
                      in (Inr res, (Suc k1, m\<lparr>i_words := Some (AList.update r object' ws)\<rparr>))))))"

declare index_generateWord.simps [simp del]

text \<open>
  What \<^verbatim>\<open>toJSON\<close> returns and \<^verbatim>\<open>load\<close> parses: an object whose fields \<^verbatim>\<open>data\<close>
  and \<^verbatim>\<open>words\<close> may each be absent (\<open>None\<close>). The text encoding between the two is
  left out.
\<close>

record index_json =
  j_data :: "(word \<times> inode) list option"
  j_words :: "(word \<times> inode) list option"
  j_hasSentences :: bool

definition index_toJSON :: "index_markov \<Rightarrow> index_json" where
  "index_toJSON m = \<lparr>j_data = i_words m, j_words = None, j_hasSentences = i_hasSentences m\<rparr>"

definition index_load :: "index_json \<Rightarrow> index_markov" where
  "index_load data =
     index_new\<lparr>i_words := j_words data, i_inherits := True,
               i_hasSentences := j_hasSentences data\<rparr>"

text \<open>The getter \<^verbatim>\<open>size\<close>: \<^verbatim>\<open>Object.keys(undefined)\<close> throws.\<close>

definition index_size :: "index_markov \<Rightarrow> error + nat" where
  "index_size m =
     (case i_words m of None \<Rightarrow> Inl TypeError | Some ws \<Rightarrow> Inr (length (object_keys ws)))"

section \<open>Specification predicates and example states\<close>

text \<open>
  The words of the specification for a valid count: a positive finite integer. The
  test of the code is \<^const>\<open>invalid_amount\<close>.
\<close>

fun positive_finite_integer :: "number \<Rightarrow> bool" where
  "positive_finite_integer (Fin a) = (0 < a \<and> a \<in> \<int>)"
| "positive_finite_integer x = False"

text \<open>
  The words of the specification for a compiled distribution: walking the keys in
  order with a running sum \<open>a\<close>, each key gets the threshold reached after adding
  its count. \<open>count_at\<close> reads the count of a key, \<open>threshold_values\<close> are the
  thresholds alone.
\<close>

definition count_at :: "(word \<times> number) list \<Rightarrow> word \<Rightarrow> rat" where
  "count_at rel k = (case map_of rel k of Some (Fin q) \<Rightarrow> q | _ \<Rightarrow> 0)"

fun thresholds :: "word list \<Rightarrow> (word \<times> number) list \<Rightarrow> rat \<Rightarrow> (number \<times> word) list" where
  "thresholds [] rel a = []"
| "thresholds (k # ks) rel a =
     (Fin (a + count_at rel k), k) # thresholds ks rel (a + count_at rel k)"

fun threshold_values :: "word list \<Rightarrow> (word \<times> number) list \<Rightarrow> rat \<Rightarrow> rat list" where
  "threshold_values [] rel a = []"
| "threshold_values (k # ks) rel a =
     (a + count_at rel k) # threshold_values ks rel (a + count_at rel k)"

text \<open>
  The invariants of the data model. An object \<^verbatim>\<open>related\<close> is well counted when its
  keys are distinct and every count is a positive integer; a node is in order when,
  in addition, \<^verbatim>\<open>total\<close> is the sum of the counts and a node flagged as compiled
  holds the distribution of its \<^verbatim>\<open>related\<close>.
\<close>

definition well_counted :: "(word \<times> number) list \<Rightarrow> bool" where
  "well_counted rel =
     (distinct (map fst rel) \<and> list_all (\<lambda>(w, v). positive_finite_integer v) rel)"

fun number_value :: "number \<Rightarrow> rat" where
  "number_value (Fin q) = q"
| "number_value x = 0"

definition related_sum :: "(word \<times> number) list \<Rightarrow> rat" where
  "related_sum rel = sum_list (map (\<lambda>(w, v). number_value v) rel)"

definition node_ok :: "node \<Rightarrow> bool" where
  "node_ok n =
     (well_counted (related n) \<and> total n = Fin (related_sum (related n))
      \<and> (mapped n \<longrightarrow>
           sums_obj n = Some (thresholds (object_keys (related n)) (related n) 0)))"

definition model_ok :: "markov \<Rightarrow> bool" where
  "model_ok m = list_all (\<lambda>(w, n). node_ok n) (nodes m)"

text \<open>
  States of part\_001 used below: the model after \<^verbatim>\<open>add("a b a c")\<close> and
  \<^verbatim>\<open>finalize()\<close>, and the node of \<^verbatim>\<open>a\<close> after a further \<^verbatim>\<open>add("a b a b")\<close>.
\<close>

definition p1_compiled :: markov where
  "p1_compiled =
     \<lparr>nodes =
        [(''a'', \<lparr>total = Fin 2, mapped = True, sums_obj = Some [(Fin 1, ''b''), (Fin 2, ''c'')],
                  related = [(''b'', Fin 1), (''c'', Fin 1)]\<rparr>),
         (''b'', \<lparr>total = Fin 1, mapped = True, sums_obj = Some [(Fin 1, ''a'')],
                  related = [(''a'', Fin 1)]\<rparr>)],
      hasSentences = False, edges = Fin 3\<rparr>"

definition p1_stale :: node where
  "p1_stale = \<lparr>total = Fin 4, mapped = False, sums_obj = Some [(Fin 1, ''b''), (Fin 2, ''c'')],
                related = [(''b'', Fin 3), (''c'', Fin 1)]\<rparr>"

text \<open>
  States of index.js used below: the model after \<^verbatim>\<open>add("a b")\<close> and one
  \<^verbatim>\<open>generateWord("a")\<close>, and the node of \<^verbatim>\<open>a\<close> after a further \<^verbatim>\<open>add("a c")\<close>.
\<close>

definition index_compiled :: index_markov where
  "index_compiled =
     \<lparr>i_words = Some [(''a'', \<lparr>i_total = Fin 1, i_related = [(''b'', Fin 1)],
                               i_mapped = Some [(Fin 1, ''b'')]\<rparr>)],
      i_inherits = False, i_hasSentences = False\<rparr>"

definition index_stale :: inode where
  "index_stale = \<lparr>i_total = Fin 2, i_related = [(''b'', Fin 1), (''c'', Fin 1)],
                   i_mapped = Some [(Fin 1, ''b'')]\<rparr>"

text \<open>
  A snapshot for \<^verbatim>\<open>load\<close> of part\_000 whose only entry is stored as compiled, with
  a distribution that does not belong to its \<^verbatim>\<open>related\<close>.
\<close>

definition stale_snapshot :: representation where
  "stale_snapshot =
     \<lparr>r_edges = Some (Fin 1),
      r_words = [(''a'', \<lparr>total = Fin 1, mapped = True, sums_obj = Some [(Fin 1, ''z'')],
                          related = [(''b'', Fin 1)]\<rparr>)],
      r_hasSentences = False\<rparr>"

section \<open>Properties\<close>

subsection \<open>Ingestion scenario\<close>

text \<open>
  Claim C6, as the code has it. After \<^verbatim>\<open>add("The cat sat. The dog ran.")\<close> on a new
  model of part\_000, \<^verbatim>\<open>hasSentences\<close> is true, \<^verbatim>\<open>edges\<close> is 5 and \<^verbatim>\<open>size\<close> is 4:
  the six tokens give five pairs, and the words that come first in a pair are
  \<^verbatim>\<open>The\<close>, \<^verbatim>\<open>cat\<close>, \<^verbatim>\<open>sat.\<close> and \<^verbatim>\<open>dog\<close> (the last token \<^verbatim>\<open>ran.\<close> never comes
  first).
\<close>

theorem C6_ingest_text_scenario:
  "hasSentences (add ''The cat sat. The dog ran.'' new_markov)
   \<and> size_of (add ''The cat sat. The dog ran.'' new_markov) = 4
   \<and> edges (add ''The cat sat. The dog ran.'' new_markov) = Fin 5
   \<and> map fst (nodes (add ''The cat sat. The dog ran.'' new_markov))
       = [''The'', ''cat'', ''sat.'', ''dog'']"
  by code_simp

text \<open>Claim C6 as stated (size 5) fails at its own input.\<close>

theorem C6_size_is_not_five:
  "size_of (add ''The cat sat. The dog ran.'' new_markov) \<noteq> 5"
  by code_simp

subsection \<open>Reset\<close>

text \<open>
  Claim C8, as the code has it. After \<^verbatim>\<open>reset()\<close> the model has no entries and the
  flag \<^verbatim>\<open>hasSentences\<close> is what it was before, in part\_000 (part\_001 has the same
  text) and in part\_003. Nothing is said here about the edge counter.
\<close>

theorem C8_reset_clears_entries_keeps_flag:
  "size_of (reset m) = 0 \<and> hasSentences (reset m) = hasSentences m
   \<and> p3_size (p3_reset m3) = 0 \<and> p3_hasSentences (p3_reset m3) = p3_hasSentences m3"
  by (simp add: size_of_def reset_def Map_clear_def p3_size_def p3_reset_def)

text \<open>
  Claim C8 as stated fails on the model that \<^verbatim>\<open>add("a b.")\<close> builds: after
  \<^verbatim>\<open>reset()\<close> it is not the case that the model is empty, the counter is zero and
  the flag is false.
\<close>

theorem C8_reset_does_not_clear_all:
  "\<not> (size_of (reset (add ''a b.'' new_markov)) = 0
      \<and> edges (reset (add ''a b.'' new_markov)) = Fin 0
      \<and> hasSentences (reset (add ''a b.'' new_markov)) = False)"
  by code_simp

subsection \<open>The empty string as current word\<close>







subsection \<open>Generation stops at a dead end\<close>

lemma floor_unit: "0 \<le> (u::rat) \<Longrightarrow> u < 1 \<Longrightarrow> \<lfloor>u\<rfloor> = 0"
  by (simp add: floor_eq_iff)

text \<open>
  Claim C5, as the code has it. On a model of part\_000 whose only entry is
  \<^verbatim>\<open>a\<close> with \<^verbatim>\<open>related = {b: 1}\<close> (dirty, or clean with the distribution \<^verbatim>\<open>{1: b}\<close>),
  \<^verbatim>\<open>generateWords(3, null, {stop: true})\<close> returns the one word \<^verbatim>\<open>b\<close>, for every random
  source with values in \<open>[0, 1)\<close>: \<^verbatim>\<open>generateWord(null)\<close> picks the key \<^verbatim>\<open>a\<close> and
  returns the word drawn after it, the key itself is not pushed to the output, and
  the second round ends the loop because \<^verbatim>\<open>b\<close> has no node.
\<close>

theorem C5_stop_at_dead_end:
  assumes rnd: "\<forall>k. 0 \<le> rnd k \<and> rnd k < 1"
    and m: "nodes m = [(''a'', n)]"
    and n: "related n = [(''b'', Fin 1)]" "total n = Fin 1"
           "mapped n \<longrightarrow> sums_obj n = Some [(Fin 1, ''b'')]"
  shows "fst (generateWords_output rnd (Fin 3) None True (k, m)) = Inr [Some ''b'']
       \<and> fst (generateWords rnd (Fin 3) None True (k, m)) = Inr ''b''"
proof -
  have sel: "\<And>u. 0 \<le> u \<Longrightarrow> u < 1 \<Longrightarrow> fst (selectWeighted u n) = Inr (Some ''b'')"
    using n
    by (cases "mapped n")
       (simp_all add: selectWeighted_def calculateWeights_def Let_def floor_unit
          object_keys_def array_index_def is_digit_def number_keys_def related_get_def)
  obtain n' where n': "selectWeighted (rnd (Suc k)) n = (Inr (Some ''b''), n')"
    using sel[of "rnd (Suc k)"] rnd by (cases "selectWeighted (rnd (Suc k)) n") auto
  have g1: "generateWord rnd None (k, m) =
      (Inr (Some ''b''), (Suc (Suc k), m\<lparr>nodes := [(''a'', n')]\<rparr>))"
    using m n' rnd by (simp add: generateWord.simps Let_def floor_unit)
  have g2: "generateWord rnd (Some ''b'') (Suc (Suc k), m\<lparr>nodes := [(''a'', n')]\<rparr>) =
      (Inr None, (Suc (Suc k), m\<lparr>nodes := [(''a'', n')]\<rparr>))"
    by (simp add: generateWord.simps Let_def)
  have three: "rounds (Fin 3) = Suc (Suc (Suc 0))" by simp
  have out: "generateWords_output rnd (Fin 3) None True (k, m)
     = (Inr [Some ''b''], (Suc (Suc k), m\<lparr>nodes := [(''a'', n')]\<rparr>))"
    unfolding generateWords_output_def three
    by (simp add: invalid_amount_def g1 g2)
  show ?thesis by (simp add: out generateWords_def)
qed

theorem C5_stop_at_dead_end_witness:
  "(\<forall>k::nat. (0::rat) \<le> 1/2 \<and> (1/2::rat) < 1)
   \<and> nodes (add ''a b'' new_markov)
       = [(''a'', \<lparr>total = Fin 1, mapped = False, sums_obj = None, related = [(''b'', Fin 1)]\<rparr>)]
   \<and> fst (generateWords_output (\<lambda>k. 1/2) (Fin 3) None True (0, add ''a b'' new_markov))
       = Inr [Some ''b'']
   \<and> fst (generateWords (\<lambda>k. 1/2) (Fin 3) None True (0, add ''a b'' new_markov)) = Inr ''b''
   \<and> nodes (snd (toJSON (add ''a b'' new_markov)))
       = [(''a'', \<lparr>total = Fin 1, mapped = True, sums_obj = Some [(Fin 1, ''b'')],
                    related = [(''b'', Fin 1)]\<rparr>)]
   \<and> fst (generateWords (\<lambda>k. 1/2) (Fin 3) None True (0, snd (toJSON (add ''a b'' new_markov))))
       = Inr ''b''"
proof -
  have a: "nodes (add ''a b'' new_markov)
      = [(''a'', \<lparr>total = Fin 1, mapped = False, sums_obj = None, related = [(''b'', Fin 1)]\<rparr>)]"
    by code_simp
  have b: "nodes (snd (toJSON (add ''a b'' new_markov)))
      = [(''a'', \<lparr>total = Fin 1, mapped = True, sums_obj = Some [(Fin 1, ''b'')],
                   related = [(''b'', Fin 1)]\<rparr>)]"
    by code_simp
  show ?thesis
    using C5_stop_at_dead_end[of "\<lambda>k. 1/2" "add ''a b'' new_markov" _ 0, OF _ a]
          C5_stop_at_dead_end[of "\<lambda>k. 1/2" "snd (toJSON (add ''a b'' new_markov))" _ 0, OF _ b]
          a b
    by simp
qed

text \<open>
  Claim C5 as stated fails: on the model that \<^verbatim>\<open>add("a b")\<close> builds, the output is
  neither the two words \<^verbatim>\<open>a\<close>, \<^verbatim>\<open>b\<close> nor the string \<^verbatim>\<open>a b\<close>.
\<close>

theorem C5_output_is_not_a_b:
  "fst (generateWords_output (\<lambda>k. 0) (Fin 3) None True (0, add ''a b'' new_markov))
     \<noteq> Inr [Some ''a'', Some ''b'']
   \<and> fst (generateWords (\<lambda>k. 0) (Fin 3) None True (0, add ''a b'' new_markov)) \<noteq> Inr ''a b''"
  by code_simp

subsection \<open>Errors of the generators\<close>

lemma trunc_fixed_iff:
  "(if 0 \<le> a then of_int \<lfloor>a\<rfloor> else of_int \<lceil>a\<rceil>) = (a::rat) \<longleftrightarrow> a \<in> \<int>"
  by (auto simp: Ints_def)

text \<open>The test of the code is the negation of the specification's predicate.\<close>

lemma invalid_amount_iff: "invalid_amount amount \<longleftrightarrow> \<not> positive_finite_integer amount"
proof (cases amount)
  case (Fin a)
  have "strict_neq (trunc (Fin a)) (Fin a) \<longleftrightarrow> a \<notin> \<int>"
    using trunc_fixed_iff[of a] by simp
  then show ?thesis using Fin by (auto simp: invalid_amount_def)
qed (simp_all add: invalid_amount_def)

text \<open>
  \<^verbatim>\<open>generateWord\<close> throws in two places only: at its start, on a model without
  nodes, and inside \<^verbatim>\<open>selectWeighted\<close>, on a node stored as compiled with
  \<^verbatim>\<open>sums: null\<close>.
\<close>

lemma generateWord_error:
  assumes "generateWord rnd r (k, m) = (Inl e, st')"
  shows "e = TypeError \<or> (e = EmptyModel \<and> nodes m = [] \<and> st' = (k, m))"
  using assms
  by (auto simp: generateWord.simps Let_def selectWeighted_def
           split: if_splits option.splits prod.splits)

lemma generateWord_nonempty:
  assumes "generateWord rnd r (k, m) = (res, (k', m'))" "nodes m \<noteq> []"
  shows "nodes m' \<noteq> []"
  using assms
  by (auto simp: generateWord.simps Let_def split: if_splits option.splits prod.splits)

lemma generateWords_loop_nonempty:
  "nodes m \<noteq> [] \<Longrightarrow> generateWords_loop rnd stop n cur out (k, m) = (Inl e, st')
     \<Longrightarrow> e = TypeError"
proof (induction n arbitrary: cur out k m)
  case 0
  then show ?case by simp
next
  case (Suc n)
  obtain res1 k1 m1 where g1: "generateWord rnd cur (k, m) = (res1, (k1, m1))"
    by (metis surj_pair)
  have ne1: "nodes m1 \<noteq> []" using generateWord_nonempty[OF g1 Suc.prems(1)] .
  show ?case
  proof (cases res1)
    case (Inl e1)
    with g1 Suc.prems have "e = e1" by simp
    moreover have "e1 = TypeError"
      using generateWord_error[of rnd cur k m e1 "(k1, m1)"] g1 Inl Suc.prems(1) by simp
    ultimately show ?thesis by simp
  next
    case (Inr c1)
    show ?thesis
    proof (cases "falsy c1")
      case False
      then show ?thesis using Suc.IH[OF ne1] Suc.prems(2) g1 Inr by simp
    next
      case True
      show ?thesis
      proof (cases stop)
        case True
        then show ?thesis using Suc.prems(2) g1 Inr \<open>falsy c1\<close> by simp
      next
        case False
        obtain res2 k2 m2 where g2: "generateWord rnd None (k1, m1) = (res2, (k2, m2))"
          by (metis surj_pair)
        have ne2: "nodes m2 \<noteq> []" using generateWord_nonempty[OF g2 ne1] .
        show ?thesis
        proof (cases res2)
          case (Inl e2)
          then have "e = e2" using Suc.prems(2) g1 g2 Inr \<open>falsy c1\<close> False by simp
          moreover have "e2 = TypeError"
            using generateWord_error[of rnd None k1 m1 e2 "(k2, m2)"] g2 Inl ne1 by simp
          ultimately show ?thesis by simp
        next
          case (Inr c2)
          then show ?thesis
            using Suc.IH[OF ne2] Suc.prems(2) g1 g2 \<open>res1 = Inr c1\<close> \<open>falsy c1\<close> False by simp
        qed
      qed
    qed
  qed
qed

lemma generateWords_loop_error:
  assumes "generateWords_loop rnd stop n cur out (k, m) = (Inl e, st')" "e \<noteq> TypeError"
  shows "st' = (k, m)"
proof (cases "nodes m = []")
  case False
  then show ?thesis using generateWords_loop_nonempty assms by blast
next
  case True
  then have g: "generateWord rnd cur (k, m) = (Inl EmptyModel, (k, m))"
    by (simp add: generateWord.simps)
  show ?thesis
  proof (cases n)
    case 0
    then show ?thesis using assms by simp
  next
    case (Suc n')
    then show ?thesis using assms g by simp
  qed
qed

lemma generateSentences_loop_nonempty:
  "nodes m \<noteq> [] \<Longrightarrow> generateSentences_loop fuel rnd n cur out (k, m) = Some (Inl e, st')
     \<Longrightarrow> e = TypeError"
proof (induction fuel arbitrary: n cur out k m)
  case 0
  then show ?case by (cases n) simp_all
next
  case (Suc fuel)
  show ?case
  proof (cases n)
    case 0
    then show ?thesis using Suc.prems by simp
  next
    case (Suc n')
    obtain res1 k1 m1 where g1: "generateWord rnd cur (k, m) = (res1, (k1, m1))"
      by (metis surj_pair)
    have ne1: "nodes m1 \<noteq> []" using generateWord_nonempty[OF g1 Suc.prems(1)] .
    show ?thesis
    proof (cases res1)
      case (Inl e1)
      with g1 Suc.prems \<open>n = Suc n'\<close> have "e = e1" by simp
      moreover have "e1 = TypeError"
        using generateWord_error[of rnd cur k m e1 "(k1, m1)"] g1 Inl Suc.prems(1) by simp
      ultimately show ?thesis by simp
    next
      case (Inr c1)
      then show ?thesis
        using Suc.IH[OF ne1] Suc.prems(2) g1 \<open>n = Suc n'\<close> by simp
    qed
  qed
qed

lemma generateSentences_loop_error:
  assumes "generateSentences_loop fuel rnd n cur out (k, m) = Some (Inl e, st')"
    "e \<noteq> TypeError"
  shows "st' = (k, m)"
proof (cases "nodes m = []")
  case False
  then show ?thesis using generateSentences_loop_nonempty assms by blast
next
  case True
  then have g: "generateWord rnd cur (k, m) = (Inl EmptyModel, (k, m))"
    by (simp add: generateWord.simps)
  show ?thesis
  proof (cases n)
    case 0
    then show ?thesis using assms by simp
  next
    case (Suc n')
    then show ?thesis using assms g by (cases fuel) simp_all
  qed
qed

text \<open>
  Claim C9, as the code has it (part\_000). With a count that is not a positive
  finite integer, \<^verbatim>\<open>generateWords\<close> throws the error of the count, and
  \<^verbatim>\<open>generateSentences\<close> throws as well, for any fuel: the error of the count when the
  model has seen a sentence delimiter, and otherwise the error of the missing
  delimiters, which the code tests first. Both leave the state as it was. And whenever
  \<^verbatim>\<open>generateWord\<close>, \<^verbatim>\<open>generateWords\<close> or \<^verbatim>\<open>generateSentences\<close> throws one of the three
  errors of the specification (any error but the \<^verbatim>\<open>TypeError\<close> of the runtime), the
  state after the call is the state before it: nodes, edge counter, flag, and the
  number of random draws.
\<close>

theorem C9_errors_before_mutation:
  "(\<not> positive_finite_integer amount \<longrightarrow>
      generateWords rnd amount rootw stop st = (Inl InvalidArgument, st)
      \<and> generateSentences fuel rnd amount rootw st =
          Some (Inl (if hasSentences (snd st) then InvalidArgument else UnsupportedOperation), st))
   \<and> (e \<noteq> TypeError \<longrightarrow>
        (generateWord rnd rootw st = (Inl e, st') \<longrightarrow> st' = st)
      \<and> (generateWords rnd amount rootw stop st = (Inl e, st') \<longrightarrow> st' = st)
      \<and> (generateSentences fuel rnd amount rootw st = Some (Inl e, st') \<longrightarrow> st' = st))"
proof -
  obtain k m where st: "st = (k, m)" by (cases st)
  have a: "\<not> positive_finite_integer amount \<Longrightarrow>
      generateWords rnd amount rootw stop st = (Inl InvalidArgument, st)"
    by (simp add: generateWords_def generateWords_output_def invalid_amount_iff)
  have b: "\<not> positive_finite_integer amount \<Longrightarrow>
      generateSentences fuel rnd amount rootw st =
        Some (Inl (if hasSentences (snd st) then InvalidArgument else UnsupportedOperation), st)"
    by (simp add: generateSentences_def invalid_amount_iff)
  have c: "generateWord rnd rootw st = (Inl e, st') \<Longrightarrow> e \<noteq> TypeError \<Longrightarrow> st' = st"
    using generateWord_error[of rnd rootw k m e st'] st by auto
  have d: "generateWords rnd amount rootw stop st = (Inl e, st') \<Longrightarrow> e \<noteq> TypeError
      \<Longrightarrow> st' = st"
    using generateWords_loop_error[of rnd stop "rounds amount" rootw _ k m e st'] st
    by (auto simp: generateWords_def generateWords_output_def
             split: if_splits prod.splits sum.splits)
  have f: "generateSentences fuel rnd amount rootw st = Some (Inl e, st') \<Longrightarrow> e \<noteq> TypeError
      \<Longrightarrow> st' = st"
    using generateSentences_loop_error[of fuel rnd "rounds amount" rootw _ k m e st'] st
    by (auto simp: generateSentences_def split: if_splits prod.splits sum.splits option.splits)
  show ?thesis using a b c d f by blast
qed

theorem C9_errors_before_mutation_witness:
  "\<not> positive_finite_integer (Fin 0)
   \<and> generateWords (\<lambda>k. 0) (Fin 0) None False (0, new_markov)
       = (Inl InvalidArgument, (0, new_markov))
   \<and> generateSentences 0 (\<lambda>k. 0) (Fin 0) None (0, new_markov)
       = Some (Inl UnsupportedOperation, (0, new_markov))
   \<and> generateSentences 0 (\<lambda>k. 0) (Fin 0) None (0, add ''a.'' new_markov)
       = Some (Inl InvalidArgument, (0, add ''a.'' new_markov))
   \<and> EmptyModel \<noteq> TypeError
   \<and> generateWord (\<lambda>k. 0) None (0, add ''a.'' new_markov)
       = (Inl EmptyModel, (0, add ''a.'' new_markov))
   \<and> generateWords (\<lambda>k. 0) (Fin 1) None False (0, add ''a.'' new_markov)
       = (Inl EmptyModel, (0, add ''a.'' new_markov))
   \<and> generateSentences (Suc 0) (\<lambda>k. 0) (Fin 1) None (0, add ''a.'' new_markov)
       = Some (Inl EmptyModel, (0, add ''a.'' new_markov))"
proof -
  have h: "hasSentences (add ''a.'' new_markov)" "\<not> hasSentences new_markov"
    by code_simp+
  have g1: "generateWord (\<lambda>k. 0) None (0, add ''a.'' new_markov)
       = (Inl EmptyModel, (0, add ''a.'' new_markov))"
    by code_simp
  have g2: "generateWords (\<lambda>k. 0) (Fin 1) None False (0, add ''a.'' new_markov)
       = (Inl EmptyModel, (0, add ''a.'' new_markov))"
    by code_simp
  have g3: "generateSentences (Suc 0) (\<lambda>k. 0) (Fin 1) None (0, add ''a.'' new_markov)
       = Some (Inl EmptyModel, (0, add ''a.'' new_markov))"
    by code_simp
  show ?thesis
    using C9_errors_before_mutation[of "Fin 0" "\<lambda>k. 0" None False "(0, new_markov)" 0]
          C9_errors_before_mutation[of "Fin 0" "\<lambda>k. 0" None False "(0, add ''a.'' new_markov)" 0]
          C9_errors_before_mutation[of "Fin 1" "\<lambda>k. 0" None False "(0, add ''a.'' new_markov)" "Suc 0"
            EmptyModel "(0, add ''a.'' new_markov)"]
    by (simp add: h g1 g2 g3)
qed

text \<open>
  Claim C9 as stated fails for \<^verbatim>\<open>generateSentences\<close>: on the model that
  \<^verbatim>\<open>add("no punctuation here")\<close> builds, the count 0 is not a positive finite integer,
  and the call throws the error of the missing delimiters, not the error of the
  count.
\<close>

theorem C9_generateSentences_tests_delimiters_first:
  "\<not> positive_finite_integer (Fin 0)
   \<and> generateSentences 0 (\<lambda>k. 0) (Fin 0) None (0, add ''no punctuation here'' new_markov)
       = Some (Inl UnsupportedOperation, (0, add ''no punctuation here'' new_markov))
   \<and> generateSentences 0 (\<lambda>k. 0) (Fin 0) None (0, add ''no punctuation here'' new_markov)
       \<noteq> Some (Inl InvalidArgument, (0, add ''no punctuation here'' new_markov))"
proof -
  have "\<not> hasSentences (add ''no punctuation here'' new_markov)" by code_simp
  then show ?thesis by (simp add: generateSentences_def)
qed

subsection \<open>Invalidation of the compiled distribution\<close>

text \<open>
  In part\_000 (and with the same text in part\_001 and part\_003) every round of the
  loop of \<^verbatim>\<open>add\<close> leaves the node of the first word dirty, and a draw on a dirty node
  compiles it from \<^verbatim>\<open>related\<close> first.
\<close>

lemma add_pair_marks_dirty:
  "\<exists>n. map_of (nodes (add_pair init first second m)) first = Some n \<and> \<not> mapped n"
  by (cases "map_of (nodes m) first")
     (simp_all add: add_pair_def Let_def update_conv')

lemma selectWeighted_dirty_recompiles:
  "\<not> mapped n \<Longrightarrow> selectWeighted u n = selectWeighted u (calculateWeights n True)"
  by (simp add: selectWeighted_def calculateWeights_def Let_def)

text \<open>
  Claim C1 at its failing input, in index.js: \<^verbatim>\<open>add("a b")\<close>, \<^verbatim>\<open>generateWord("a")\<close>,
  \<^verbatim>\<open>add("a c")\<close>. The first draw compiles the node of \<^verbatim>\<open>a\<close>; the second \<^verbatim>\<open>add\<close> changes
  \<^verbatim>\<open>related\<close> and \<^verbatim>\<open>total\<close> and leaves \<^verbatim>\<open>mapped\<close> as it is, \<^verbatim>\<open>{1: b}\<close>; the next draw
  uses that object, so it returns \<^verbatim>\<open>null\<close> for the roll 1 and \<^verbatim>\<open>b\<close> for the roll 0, and
  \<^verbatim>\<open>c\<close> is never drawn.
\<close>

theorem C1_index_add_keeps_stale_distribution:
  "index_generateWord (\<lambda>k. 0) (Some ''a'') (0, snd (index_add ''a b'' index_new))
     = (Inr (Some ''b''), (1, index_compiled))
   \<and> index_add ''a c'' index_compiled
       = (None, index_compiled\<lparr>i_words := Some [(''a'', index_stale)]\<rparr>)
   \<and> i_related index_stale = [(''b'', Fin 1), (''c'', Fin 1)]
   \<and> i_mapped index_stale = Some [(Fin 1, ''b'')]
   \<and> fst (index_generateWord (\<lambda>k. 1/2) (Some ''a'')
            (0, index_compiled\<lparr>i_words := Some [(''a'', index_stale)]\<rparr>)) = Inr None
   \<and> fst (index_generateWord (\<lambda>k. 0) (Some ''a'')
            (0, index_compiled\<lparr>i_words := Some [(''a'', index_stale)]\<rparr>)) = Inr (Some ''b'')"
  by code_simp

subsection \<open>The compiled distribution\<close>

text \<open>
  Compiling twice is compiling once in part\_000, forced or not: the second call
  returns at the flag, or rebuilds the same object from \<^verbatim>\<open>related\<close>.
\<close>

lemma calculateWeights_idempotent:
  "calculateWeights (calculateWeights n force) False = calculateWeights n force"
  by (simp add: calculateWeights_def)

lemma calculateWeights_forced_idempotent:
  "calculateWeights (calculateWeights n True) force = calculateWeights n True"
  by (simp add: calculateWeights_def)

text \<open>
  Claim C2 at its failing input, in part\_001: \<^verbatim>\<open>add("a b a c")\<close>, \<^verbatim>\<open>finalize()\<close>,
  \<^verbatim>\<open>add("a b a b")\<close>, then \<^verbatim>\<open>calculateWeights\<close> on the node of \<^verbatim>\<open>a\<close>. The node has
  \<^verbatim>\<open>related = {b: 3, c: 1}\<close> and still holds the thresholds \<^verbatim>\<open>{1: b, 2: c}\<close> of the first
  compilation; part\_001 writes the new thresholds 3 and 4 into that object, so
  \<^verbatim>\<open>b\<close> and \<^verbatim>\<open>c\<close> are each the target of two thresholds, and the roll 1 draws \<^verbatim>\<open>c\<close>.
  part\_000 starts from an empty object: its result is \<^verbatim>\<open>{3: b, 4: c}\<close>, and the roll 1
  draws \<^verbatim>\<open>b\<close>.
\<close>

theorem C2_p1_calculateWeights_keeps_old_thresholds:
  "p1_finalize (p1_add ''a b a c'' new_markov) = Inr p1_compiled
   \<and> map_of (nodes (p1_add ''a b a b'' p1_compiled)) ''a'' = Some p1_stale
   \<and> p1_calculateWeights p1_stale False =
       Inr (p1_stale\<lparr>mapped := True,
              sums_obj := Some [(Fin 1, ''b''), (Fin 2, ''c''), (Fin 3, ''b''), (Fin 4, ''c'')]\<rparr>)
   \<and> calculateWeights p1_stale False =
       p1_stale\<lparr>mapped := True, sums_obj := Some [(Fin 3, ''b''), (Fin 4, ''c'')]\<rparr>
   \<and> trunc (random_times (1/4) (total p1_stale)) = Fin 1
   \<and> fst (p1_selectWeighted (1/4) p1_stale) = Inr (Some ''c'')
   \<and> fst (selectWeighted (1/4) p1_stale) = Inr (Some ''b'')"
  by code_simp

subsection \<open>Drawing from a node\<close>

text \<open>
  Claim C3 at two failing inputs. In index.js, the node of \<^verbatim>\<open>a\<close> after
  \<^verbatim>\<open>add("a b")\<close>, \<^verbatim>\<open>generateWord("a")\<close>, \<^verbatim>\<open>add("a c")\<close> has \<^verbatim>\<open>total = 2\<close>, and
  \<^verbatim>\<open>selectWeighted\<close> returns \<^verbatim>\<open>null\<close> for the roll 1, which lies in \<open>[0, 2)\<close>: the only
  threshold is the stale 1. In part\_000, the node of \<^verbatim>\<open>a\<close> after
  \<^verbatim>\<open>add("a constructor")\<close> has \<^verbatim>\<open>total = 1\<close> and \<^verbatim>\<open>related = {constructor: NaN}\<close>, since
  \<^verbatim>\<open>related.constructor\<close> is inherited and not \<^verbatim>\<open>undefined\<close>; the only threshold is NaN,
  and \<^verbatim>\<open>selectWeighted\<close> returns \<^verbatim>\<open>null\<close> for the roll 0.
\<close>

theorem C3_selectWeighted_returns_null_with_positive_total:
  "i_total index_stale = Fin 2
   \<and> trunc (random_times (1/2) (i_total index_stale)) = Fin 1
   \<and> fst (index_selectWeighted (1/2) index_stale) = None
   \<and> map_of (nodes (add ''a constructor'' new_markov)) ''a''
       = Some \<lparr>total = Fin 1, mapped = False, sums_obj = None, related = [(''constructor'', NaN)]\<rparr>
   \<and> trunc (random_times 0 (Fin 1)) = Fin 0
   \<and> fst (selectWeighted 0 \<lparr>total = Fin 1, mapped = False, sums_obj = None,
                             related = [(''constructor'', NaN)]\<rparr>) = Inr None"
  by code_simp

subsection \<open>Export and load\<close>

text \<open>
  In index.js \<^verbatim>\<open>toJSON\<close> writes the words under \<^verbatim>\<open>data\<close> and \<^verbatim>\<open>load\<close> reads them
  from \<^verbatim>\<open>words\<close>: whatever the model, the loaded instance has \<^verbatim>\<open>#words\<close> undefined
  and its \<^verbatim>\<open>size\<close> throws.
\<close>

lemma index_load_toJSON_size: "index_size (index_load (index_toJSON m)) = Inl TypeError"
  by (simp add: index_size_def index_load_def index_toJSON_def)

text \<open>
  Claim C4 at its failing input, in index.js: the model after \<^verbatim>\<open>add("a b")\<close> has size
  1; the instance loaded from its own export has no words, and asking its size
  throws.
\<close>

theorem C4_index_load_of_export_loses_words:
  "index_size (snd (index_add ''a b'' index_new)) = Inr 1
   \<and> j_words (index_toJSON (snd (index_add ''a b'' index_new))) = None
   \<and> i_words (index_load (index_toJSON (snd (index_add ''a b'' index_new)))) = None
   \<and> index_size (index_load (index_toJSON (snd (index_add ''a b'' index_new)))) = Inl TypeError"
  by code_simp

lemma finalize_all_mapped: "(w, n) \<in> set (nodes (finalize m)) \<Longrightarrow> mapped n"
  by (auto simp: finalize_def calculateWeights_def)

text \<open>
  Claim C7, as the code has it (part\_000; part\_001 has the same \<^verbatim>\<open>load\<close>). The nodes
  of the loaded model are the nodes of the snapshot, each with the flag and the
  distribution stored for it. Every node of an exported snapshot is stored as
  compiled. A draw on a node stored as compiled leaves the node as it is and walks
  the stored thresholds; only a draw on a node stored as dirty compiles it from
  \<^verbatim>\<open>related\<close>.
\<close>

theorem C7_load_keeps_persisted_flag:
  "nodes (load data m) = new_Map (r_words data)
   \<and> (\<forall>(w, n') \<in> set (r_words (fst (toJSON m2))). mapped n')
   \<and> (mapped n \<longrightarrow> snd (selectWeighted u n) = n)
   \<and> (mapped n \<longrightarrow> sums_obj n = Some s \<longrightarrow>
        fst (selectWeighted u n)
          = Inr (select_loop (trunc (random_times u (total n))) (number_keys s) s))
   \<and> (\<not> mapped n \<longrightarrow> snd (selectWeighted u n) = calculateWeights n True)"
proof -
  have a: "nodes (load data m) = new_Map (r_words data)"
    by (simp add: load_def Let_def split: option.splits)
  have b: "\<forall>(w, n') \<in> set (r_words (fst (toJSON m2))). mapped n'"
    using finalize_all_mapped by (auto simp: toJSON_def Let_def)
  have c: "mapped n \<Longrightarrow> snd (selectWeighted u n) = n"
    by (simp add: selectWeighted_def Let_def split: option.splits)
  have d: "mapped n \<Longrightarrow> sums_obj n = Some s \<Longrightarrow>
        fst (selectWeighted u n)
          = Inr (select_loop (trunc (random_times u (total n))) (number_keys s) s)"
    by (simp add: selectWeighted_def Let_def)
  have e: "\<not> mapped n \<Longrightarrow> snd (selectWeighted u n) = calculateWeights n True"
    by (simp add: selectWeighted_def calculateWeights_def Let_def)
  show ?thesis using a b c d e by blast
qed

theorem C7_load_keeps_persisted_flag_witness:
  "nodes (load stale_snapshot new_markov) = new_Map (r_words stale_snapshot)
   \<and> list_all (\<lambda>(w, n). mapped n) (r_words (fst (toJSON (add ''a b'' new_markov))))
   \<and> r_words (fst (toJSON (add ''a b'' new_markov)))
       = [(''a'', \<lparr>total = Fin 1, mapped = True, sums_obj = Some [(Fin 1, ''b'')],
                    related = [(''b'', Fin 1)]\<rparr>)]
   \<and> mapped (snd (hd (r_words stale_snapshot)))
   \<and> sums_obj (snd (hd (r_words stale_snapshot))) = Some [(Fin 1, ''z'')]
   \<and> selectWeighted 0 (snd (hd (r_words stale_snapshot)))
       = (Inr (Some ''z''), snd (hd (r_words stale_snapshot)))
   \<and> \<not> mapped initNode
   \<and> snd (selectWeighted 0 initNode) = calculateWeights initNode True"
proof -
  have w: "r_words (fst (toJSON (add ''a b'' new_markov)))
       = [(''a'', \<lparr>total = Fin 1, mapped = True, sums_obj = Some [(Fin 1, ''b'')],
                    related = [(''b'', Fin 1)]\<rparr>)]"
    by code_simp
  have s: "select_loop (Fin 0) (number_keys [(Fin 1, ''z'')]) [(Fin 1, ''z'')] = Some ''z''"
    by code_simp
  show ?thesis
    using C7_load_keeps_persisted_flag[where data = stale_snapshot and m = new_markov
            and ?m2.0 = "add ''a b'' new_markov"
            and n = "snd (hd (r_words stale_snapshot))" and u = 0 and s = "[(Fin 1, ''z'')]"]
          C7_load_keeps_persisted_flag[where data = stale_snapshot and m = new_markov
            and ?m2.0 = "add ''a b'' new_markov" and n = initNode and u = 0 and s = "[]"]
    by (simp add: w s stale_snapshot_def initNode_def prod_eq_iff)
qed

text \<open>
  Claim C7 as stated fails. The node of \<^verbatim>\<open>a\<close> loaded from the export of the model
  that \<^verbatim>\<open>add("a b")\<close> builds is clean. And a node stored as compiled with the
  distribution \<^verbatim>\<open>{1: z}\<close> and \<^verbatim>\<open>related = {b: 1}\<close> is sampled as stored: the draw
  returns \<^verbatim>\<open>z\<close>, which the distribution compiled from \<^verbatim>\<open>related\<close> cannot give.
\<close>

theorem C7_loaded_entry_is_not_dirty:
  "map_option mapped
     (map_of (nodes (load (fst (toJSON (add ''a b'' new_markov))) new_markov)) ''a'')
     = Some True
   \<and> fst (generateWord (\<lambda>k. 0) (Some ''a'') (0, load stale_snapshot new_markov))
       = Inr (Some ''z'')"
  by code_simp

subsection \<open>The distribution that part\_000 compiles\<close>

text \<open>
  On a well counted \<^verbatim>\<open>related\<close> the loop of \<^verbatim>\<open>calculateWeights\<close> never meets a
  threshold twice, so each assignment to \<^verbatim>\<open>sums\<close> adds a property, and the object it
  builds is the list of thresholds of the specification.
\<close>

lemma update_fresh: "k \<notin> fst ` set s \<Longrightarrow> AList.update k v s = s @ [(k, v)]"
  by (induction s) auto

lemma well_counted_lookup:
  assumes "well_counted rel" "k \<in> fst ` set rel"
  shows "\<exists>q. map_of rel k = Some (Fin q) \<and> 0 < q \<and> q \<in> \<int>"
proof -
  obtain v where v: "(k, v) \<in> set rel" using assms(2) by auto
  then have "map_of rel k = Some v" using assms(1) by (simp add: well_counted_def)
  moreover have "positive_finite_integer v"
    using assms(1) v by (auto simp: well_counted_def list_all_iff)
  ultimately show ?thesis by (cases v) auto
qed

lemma weights_loop_thresholds:
  assumes "\<forall>k \<in> set ks. \<exists>q. map_of rel k = Some (Fin q) \<and> 0 < q"
    and "\<forall>t \<in> fst ` set s. \<exists>b. t = Fin b \<and> b \<le> a"
  shows "weights_loop ks rel (Fin a) s = s @ thresholds ks rel a"
  using assms
proof (induction ks arbitrary: a s)
  case Nil
  then show ?case by simp
next
  case (Cons k ks)
  obtain q where q: "map_of rel k = Some (Fin q)" "0 < q" using Cons.prems(1) by auto
  have c: "count_at rel k = q" using q by (simp add: count_at_def)
  have v: "to_number (related_get rel k) = Fin q" using q by (simp add: related_get_def)
  have fresh: "Fin (a + q) \<notin> fst ` set s"
  proof
    assume "Fin (a + q) \<in> fst ` set s"
    then obtain b where "Fin (a + q) = Fin b" "b \<le> a" using Cons.prems(2) by blast
    then show False using q(2) by simp
  qed
  have bound: "\<forall>t \<in> fst ` set (s @ [(Fin (a + q), k)]). \<exists>b. t = Fin b \<and> b \<le> a + q"
    using Cons.prems(2) q(2) by (auto simp: image_Un)
  have rest: "\<forall>k \<in> set ks. \<exists>q. map_of rel k = Some (Fin q) \<and> 0 < q"
    using Cons.prems(1) by simp
  show ?case
    using Cons.IH[OF rest bound] by (simp add: v c Let_def update_fresh[OF fresh])
qed

lemma thresholds_targets: "map snd (thresholds ks rel a) = ks"
  by (induction ks arbitrary: a) simp_all

lemma thresholds_above:
  assumes "\<forall>k \<in> set ks. 0 < count_at rel k" "(t, w) \<in> set (thresholds ks rel a)"
  shows "\<exists>b. t = Fin b \<and> a < b"
  using assms
proof (induction ks arbitrary: a)
  case Nil
  then show ?case by simp
next
  case (Cons k ks)
  have p: "0 < count_at rel k" using Cons.prems(1) by simp
  show ?case
  proof (cases "(t, w) = (Fin (a + count_at rel k), k)")
    case True
    then show ?thesis using p by simp
  next
    case False
    then have "(t, w) \<in> set (thresholds ks rel (a + count_at rel k))" using Cons.prems(2) by auto
    then obtain b where "t = Fin b" "a + count_at rel k < b"
      using Cons.IH[of "a + count_at rel k"] Cons.prems(1) by auto
    then show ?thesis using p by (intro exI[of _ b]) simp
  qed
qed

lemma thresholds_increasing:
  assumes "\<forall>k \<in> set ks. 0 < count_at rel k"
  shows "sorted_wrt num_less (map fst (thresholds ks rel a))"
  using assms
proof (induction ks arbitrary: a)
  case Nil
  then show ?case by simp
next
  case (Cons k ks)
  have "\<forall>t \<in> set (map fst (thresholds ks rel (a + count_at rel k))). num_less (Fin (a + count_at rel k)) t"
    using thresholds_above[of ks rel _ _ "a + count_at rel k"] Cons.prems by fastforce
  then show ?case using Cons by simp
qed

lemma thresholds_last:
  "ks \<noteq> [] \<Longrightarrow> fst (last (thresholds ks rel a)) = Fin (a + sum_list (map (count_at rel) ks))"
proof (induction ks arbitrary: a)
  case Nil
  then show ?case by simp
next
  case (Cons k ks)
  show ?case
  proof (cases ks)
    case Nil
    then show ?thesis by simp
  next
    case (Cons k' ks')
    then have "thresholds ks rel (a + count_at rel k) \<noteq> []" by simp
    then show ?thesis using Cons.IH[of "a + count_at rel k"] Cons by (simp add: add.assoc)
  qed
qed

text \<open>
  \<^verbatim>\<open>Object.keys(sums)\<close> lists increasing non-negative integer thresholds in their
  order: the array indices among them come first and are a prefix.
\<close>

lemma filter_below_sorted:
  "sorted (xs :: rat list) \<Longrightarrow> filter (\<lambda>b. b < B) xs @ filter (\<lambda>b. \<not> b < B) xs = xs"
proof (induction xs)
  case Nil
  then show ?case by simp
next
  case (Cons x xs)
  show ?case
  proof (cases "x < B")
    case True
    then show ?thesis using Cons by simp
  next
    case False
    then have "\<forall>y \<in> set xs. \<not> y < B" using Cons.prems by auto
    then have "filter (\<lambda>b. b < B) xs = []" "filter (\<lambda>b. \<not> b < B) xs = xs"
      by (simp_all add: filter_empty_conv filter_id_conv)
    then show ?thesis using False by simp
  qed
qed

lemma number_keys_values:
  assumes "sorted_wrt (<) bs" "\<forall>b \<in> set bs. b \<in> \<int> \<and> 0 \<le> b" "map fst s = map Fin bs"
  shows "number_keys s = map Fin bs"
proof -
  have idx: "\<And>b. b \<in> set bs \<Longrightarrow>
      number_index (Fin b) = (if b < 4294967295 then Some b else None)"
    using assms(2) by (auto simp: Ints_def)
  have f1: "filter (\<lambda>k. number_index k \<noteq> None) (map Fin bs)
      = map Fin (filter (\<lambda>b. b < 4294967295) bs)"
    unfolding filter_map comp_def
    by (rule arg_cong[where f = "map Fin"], rule filter_cong) (simp_all add: idx del: number_index.simps)
  have f2: "filter (\<lambda>k. number_index k = None) (map Fin bs)
      = map Fin (filter (\<lambda>b. \<not> b < 4294967295) bs)"
    unfolding filter_map comp_def
    by (rule arg_cong[where f = "map Fin"], rule filter_cong) (simp_all add: idx del: number_index.simps)
  have srt: "sorted bs" using assms(1) by (simp add: strict_sorted_iff)
  have m: "map (\<lambda>k. the (number_index k)) (map Fin (filter (\<lambda>b. b < 4294967295) bs))
      = filter (\<lambda>b. b < 4294967295) bs"
    unfolding map_map comp_def
    by (rule map_idI) (simp add: idx del: number_index.simps)
  have "sorted (filter (\<lambda>b. b < 4294967295) bs)" using srt sorted_filter[of "\<lambda>b. b" bs] by simp
  then have s1: "sort_key (\<lambda>k. the (number_index k)) (map Fin (filter (\<lambda>b. b < 4294967295) bs))
      = map Fin (filter (\<lambda>b. b < 4294967295) bs)"
    by (intro sort_key_id_if_sorted) (simp only: m)
  show ?thesis
    unfolding number_keys_def Let_def assms(3) f1 f2 s1
    using filter_below_sorted[OF srt, of 4294967295] by (metis map_append)
qed

lemma thresholds_values: "map fst (thresholds ks rel a) = map Fin (threshold_values ks rel a)"
  by (induction ks arbitrary: a) simp_all

lemma threshold_values_above:
  "\<forall>k \<in> set ks. 0 < count_at rel k \<Longrightarrow> b \<in> set (threshold_values ks rel a) \<Longrightarrow> a < b"
proof (induction ks arbitrary: a)
  case Nil
  then show ?case by simp
next
  case (Cons k ks)
  then show ?case by (auto intro: less_trans[of a "a + count_at rel k"] simp: less_add_same_cancel1)
qed

lemma threshold_values_sorted:
  "\<forall>k \<in> set ks. 0 < count_at rel k \<Longrightarrow> sorted_wrt (<) (threshold_values ks rel a)"
  by (induction ks arbitrary: a) (auto dest: threshold_values_above)

lemma threshold_values_int:
  "\<forall>k \<in> set ks. count_at rel k \<in> \<int> \<Longrightarrow> a \<in> \<int> \<Longrightarrow> b \<in> set (threshold_values ks rel a)
     \<Longrightarrow> b \<in> \<int>"
  by (induction ks arbitrary: a) (auto intro: Ints_add)

text \<open>\<^verbatim>\<open>Object.keys(related)\<close> is a rearrangement of the keys of \<^verbatim>\<open>related\<close>.\<close>

lemma set_object_keys: "set (object_keys rel) = fst ` set rel"
  by (auto simp: object_keys_def Let_def)

lemma distinct_object_keys: "distinct (map fst rel) \<Longrightarrow> distinct (object_keys rel)"
  by (auto simp: object_keys_def Let_def)

lemma sum_object_keys:
  assumes "distinct (map fst rel)"
  shows "sum_list (map f (object_keys rel)) = sum_list (map (f :: word \<Rightarrow> rat) (map fst rel))"
proof -
  have "sum_list (map f (object_keys rel)) = sum f (set (object_keys rel))"
    using distinct_object_keys[OF assms] by (rule sum_list_distinct_conv_sum_set)
  also have "\<dots> = sum f (set (map fst rel))" by (simp add: set_object_keys)
  also have "\<dots> = sum_list (map f (map fst rel))"
    using assms by (rule sum_list_distinct_conv_sum_set[symmetric])
  finally show ?thesis .
qed

lemma related_sum_keys:
  assumes "distinct (map fst rel)"
  shows "sum_list (map (count_at rel) (map fst rel)) = related_sum rel"
proof -
  have "\<And>k v. (k, v) \<in> set rel \<Longrightarrow> count_at rel k = number_value v"
  proof -
    fix k v assume "(k, v) \<in> set rel"
    then have "map_of rel k = Some v" using assms by simp
    then show "count_at rel k = number_value v" by (cases v) (simp_all add: count_at_def)
  qed
  then have e: "map (count_at rel) (map fst rel) = map (\<lambda>(w, v). number_value v) rel"
    unfolding map_map comp_def by (intro map_cong) auto
  show ?thesis unfolding related_sum_def e ..
qed

lemma well_counted_keys:
  assumes "well_counted rel"
  shows "\<forall>k \<in> set (object_keys rel). \<exists>q. map_of rel k = Some (Fin q) \<and> 0 < q"
    and "\<forall>k \<in> set (object_keys rel). 0 < count_at rel k"
    and "\<forall>k \<in> set (object_keys rel). count_at rel k \<in> \<int>"
proof -
  have l: "\<And>k. k \<in> set (object_keys rel) \<Longrightarrow>
      \<exists>q. map_of rel k = Some (Fin q) \<and> 0 < q \<and> q \<in> \<int>"
    using well_counted_lookup[OF assms] by (simp add: set_object_keys)
  show "\<forall>k \<in> set (object_keys rel). \<exists>q. map_of rel k = Some (Fin q) \<and> 0 < q"
    using l by blast
  show "\<forall>k \<in> set (object_keys rel). 0 < count_at rel k"
  proof
    fix k assume "k \<in> set (object_keys rel)"
    then obtain q where "map_of rel k = Some (Fin q)" "0 < q" using l by blast
    then show "0 < count_at rel k" by (simp add: count_at_def)
  qed
  show "\<forall>k \<in> set (object_keys rel). count_at rel k \<in> \<int>"
  proof
    fix k assume "k \<in> set (object_keys rel)"
    then obtain q where "map_of rel k = Some (Fin q)" "q \<in> \<int>" using l by blast
    then show "count_at rel k \<in> \<int>" by (simp add: count_at_def)
  qed
qed

lemma calculateWeights_thresholds:
  assumes "well_counted (related n)"
  shows "sums_obj (calculateWeights n True)
      = Some (thresholds (object_keys (related n)) (related n) 0)"
  using weights_loop_thresholds[of "object_keys (related n)" "related n" "[]" 0]
        well_counted_keys(1)[OF assms]
  by (simp add: calculateWeights_def)

lemma thresholds_number_keys:
  assumes "well_counted rel"
  shows "number_keys (thresholds (object_keys rel) rel 0)
      = map fst (thresholds (object_keys rel) rel 0)"
proof -
  let ?bs = "threshold_values (object_keys rel) rel 0"
  have s: "sorted_wrt (<) ?bs"
    using threshold_values_sorted well_counted_keys(2)[OF assms] by blast
  have i: "\<forall>b \<in> set ?bs. b \<in> \<int> \<and> 0 \<le> b"
    using threshold_values_int[of "object_keys rel" rel 0] well_counted_keys(3)[OF assms]
          threshold_values_above[of "object_keys rel" rel _ 0] well_counted_keys(2)[OF assms]
    by (auto simp: less_imp_le)
  show ?thesis
    using number_keys_values[OF s i thresholds_values] by (simp add: thresholds_values)
qed

lemma thresholds_lookup:
  assumes "\<forall>k \<in> set ks. 0 < count_at rel k" "p \<in> set (map fst (thresholds ks rel a))"
  shows "\<exists>w \<in> set ks. map_of (thresholds ks rel a) p = Some w"
proof -
  have "sorted_wrt (<) (threshold_values ks rel a)"
    using threshold_values_sorted assms(1) by blast
  then have "distinct (threshold_values ks rel a)" by (simp add: strict_sorted_iff)
  then have d: "distinct (map fst (thresholds ks rel a))"
    by (simp add: thresholds_values distinct_map inj_on_def)
  obtain w where w: "(p, w) \<in> set (thresholds ks rel a)" using assms(2) by auto
  then have "w \<in> set (map snd (thresholds ks rel a))" by force
  then have "w \<in> set ks" by (simp add: thresholds_targets)
  then show ?thesis using map_of_is_SomeI[OF d w] by blast
qed

lemma select_loop_hits:
  assumes "\<forall>p \<in> set keys. \<exists>w \<in> W. map_of s p = Some w" "\<exists>p \<in> set keys. num_less roll p"
  shows "\<exists>w \<in> W. select_loop roll keys s = Some w"
  using assms by (induction keys) auto

text \<open>
  In part\_000, compiling a node that is in order gives a distribution whose
  thresholds increase strictly, are walked by \<^verbatim>\<open>selectWeighted\<close> in that order, have
  every key of \<^verbatim>\<open>related\<close> exactly once as target, and end at \<^verbatim>\<open>total\<close>.
\<close>

theorem calculateWeights_well_counted:
  assumes "node_ok n"
  shows "\<exists>s. sums_obj (calculateWeights n False) = Some s
           \<and> mapped (calculateWeights n False)
           \<and> s = thresholds (object_keys (related n)) (related n) 0
           \<and> sorted_wrt num_less (map fst s)
           \<and> number_keys s = map fst s
           \<and> distinct (map snd s)
           \<and> set (map snd s) = fst ` set (related n)
           \<and> (s = [] \<or> fst (last s) = total n)"
proof -
  let ?ks = "object_keys (related n)"
  let ?T = "thresholds ?ks (related n) 0"
  have wf: "well_counted (related n)" using assms by (simp add: node_ok_def)
  have s: "sums_obj (calculateWeights n False) = Some ?T"
    using assms calculateWeights_thresholds[OF wf]
    by (cases "mapped n") (simp_all add: node_ok_def calculateWeights_def)
  have m: "mapped (calculateWeights n False)" by (simp add: calculateWeights_def)
  have inc: "sorted_wrt num_less (map fst ?T)"
    using thresholds_increasing well_counted_keys(2)[OF wf] by blast
  have d: "distinct (map snd ?T)"
    using distinct_object_keys[of "related n"] wf by (simp add: thresholds_targets well_counted_def)
  have st: "set (map snd ?T) = fst ` set (related n)"
    by (simp add: thresholds_targets set_object_keys)
  have l: "?T = [] \<or> fst (last ?T) = total n"
  proof (cases "?ks = []")
    case True
    then show ?thesis by simp
  next
    case False
    have "sum_list (map (count_at (related n)) ?ks) = related_sum (related n)"
      using sum_object_keys[of "related n" "count_at (related n)"] wf
            related_sum_keys[of "related n"]
      by (simp add: well_counted_def)
    then show ?thesis using thresholds_last[OF False, of "related n" 0] assms
      by (simp add: node_ok_def)
  qed
  show ?thesis using s m inc d st l thresholds_number_keys[OF wf] by blast
qed

text \<open>
  In part\_000, a draw on a node that is in order, with \<^verbatim>\<open>total > 0\<close> and a random
  value in \<open>[0, 1)\<close>, returns a key of \<^verbatim>\<open>related\<close>, and leaves the node in order.
\<close>

theorem selectWeighted_well_counted:
  assumes wf: "well_counted (related n)" and ne: "related n \<noteq> []"
    and tot: "total n = Fin (related_sum (related n))"
    and clean: "mapped n \<longrightarrow>
          sums_obj n = Some (thresholds (object_keys (related n)) (related n) 0)"
    and u: "0 \<le> u" "u < 1"
  shows "\<exists>w \<in> fst ` set (related n). fst (selectWeighted u n) = Inr (Some w)"
proof -
  let ?ks = "object_keys (related n)"
  let ?T = "thresholds ?ks (related n) 0"
  let ?S = "related_sum (related n)"
  have pos: "\<forall>k \<in> set ?ks. 0 < count_at (related n) k" using well_counted_keys(2)[OF wf] .
  have ks: "?ks \<noteq> []" using ne set_object_keys[of "related n"] by (cases "related n") auto
  have S: "?S = sum_list (map (count_at (related n)) ?ks)"
    using sum_object_keys[of "related n" "count_at (related n)"] wf related_sum_keys[of "related n"]
    by (simp add: well_counted_def)
  have Spos: "0 < ?S"
  proof -
    obtain k ks' where "?ks = k # ks'" using ks by (cases ?ks) auto
    then have "0 < count_at (related n) k" "\<forall>x \<in> set ks'. 0 \<le> count_at (related n) x"
      using pos by (auto simp: less_imp_le)
    then have "0 < count_at (related n) k + sum_list (map (count_at (related n)) ks')"
      by (intro add_pos_nonneg sum_list_nonneg) auto
    then show ?thesis using \<open>?ks = k # ks'\<close> S by simp
  qed
  have sel: "selectWeighted u n
      = (Inr (select_loop (trunc (random_times u (total n))) (number_keys ?T) ?T),
         n\<lparr>sums_obj := Some ?T, mapped := True\<rparr>)"
    using clean calculateWeights_thresholds[OF wf]
    by (cases "mapped n") (auto simp: selectWeighted_def calculateWeights_def Let_def)
  have roll: "trunc (random_times u (total n)) = Fin (of_int \<lfloor>u * ?S\<rfloor>)"
    using u Spos by (simp add: tot)
  have lt: "of_int \<lfloor>u * ?S\<rfloor> < ?S"
  proof -
    have "of_int \<lfloor>u * ?S\<rfloor> \<le> u * ?S" by simp
    also have "\<dots> < ?S" using u Spos by simp
    finally show ?thesis .
  qed
  have T: "?T \<noteq> []" using ks by (cases ?ks) auto
  have last: "fst (last ?T) = Fin ?S" using thresholds_last[OF ks, of "related n" 0] S by simp
  have hit: "\<exists>p \<in> set (map fst ?T). num_less (Fin (of_int \<lfloor>u * ?S\<rfloor>)) p"
  proof -
    have "last ?T \<in> set ?T" using T by simp
    then have "fst (last ?T) \<in> set (map fst ?T)" by (simp del: last_in_set)
    then show ?thesis using last lt by (intro bexI[of _ "fst (last ?T)"]) simp_all
  qed
  have look: "\<forall>p \<in> set (map fst ?T). \<exists>w \<in> fst ` set (related n). map_of ?T p = Some w"
    using thresholds_lookup[OF pos] by (simp add: set_object_keys)
  show ?thesis
    using select_loop_hits[OF look hit]
    by (simp add: sel roll thresholds_number_keys[OF wf])
qed

lemma node_ok_positive_total:
  assumes "node_ok n" "num_less (Fin 0) (total n)"
  shows "related n \<noteq> []"
  using assms by (auto simp: node_ok_def related_sum_def)

theorem selectWeighted_node_ok:
  assumes ok: "node_ok n" and pos: "num_less (Fin 0) (total n)" and u: "0 \<le> u" "u < 1"
  shows "\<exists>w \<in> fst ` set (related n). fst (selectWeighted u n) = Inr (Some w)"
  using selectWeighted_well_counted[of n u] node_ok_positive_total[OF ok pos] ok u
  by (simp add: node_ok_def)

lemma selectWeighted_ok:
  assumes "node_ok n"
  shows "node_ok (snd (selectWeighted u n))"
proof -
  have wf: "well_counted (related n)" using assms by (simp add: node_ok_def)
  have "snd (selectWeighted u n)
      = n\<lparr>sums_obj := Some (thresholds (object_keys (related n)) (related n) 0), mapped := True\<rparr>"
    using assms calculateWeights_thresholds[OF wf]
    by (cases "mapped n") (auto simp: selectWeighted_def calculateWeights_def Let_def node_ok_def)
  then show ?thesis using assms by (simp add: node_ok_def)
qed

text \<open>
  \<^verbatim>\<open>add\<close> of part\_000 keeps every node in order, provided that no token is the name
  of a property of \<^verbatim>\<open>Object.prototype\<close>; so a draw after such an \<^verbatim>\<open>add\<close> returns a key
  of the updated \<^verbatim>\<open>related\<close>.
\<close>

lemma related_sum_update_old:
  "map_of rel k = Some (Fin q) \<Longrightarrow>
     related_sum (AList.update k (Fin (q + 1)) rel) = related_sum rel + 1"
  by (induction rel) (auto simp: related_sum_def)

lemma related_sum_update_new:
  "map_of rel k = None \<Longrightarrow> related_sum (AList.update k (Fin 1) rel) = related_sum rel + 1"
  by (induction rel) (auto simp: related_sum_def)

lemma well_counted_update:
  assumes "well_counted rel" "positive_finite_integer v"
  shows "well_counted (AList.update k v rel)"
proof -
  have "distinct (map fst (AList.update k v rel))"
    using assms(1) by (simp add: well_counted_def distinct_update)
  moreover have "list_all (\<lambda>(w, v). positive_finite_integer v) (AList.update k v rel)"
    using assms by (induction rel) (auto simp: well_counted_def)
  ultimately show ?thesis by (simp add: well_counted_def)
qed

lemma related_round:
  assumes "second \<notin> set object_prototype_names"
  shows "related_increment
           (if related_get rel second = Undefined then related_set rel second (Fin 0) else rel)
           second
       = AList.update second
           (case map_of rel second of None \<Rightarrow> Fin 1 | Some v \<Rightarrow> num_add v (Fin 1)) rel"
proof -
  have np: "second \<noteq> ''__proto__''" using assms by (auto simp: object_prototype_names_def)
  show ?thesis
  proof (cases "map_of rel second")
    case None
    then have "related_get rel second = Undefined" using assms by (simp add: related_get_def)
    moreover have "map_of (AList.update second (Fin 0) rel) second = Some (Fin 0)"
      by (simp add: update_conv')
    ultimately show ?thesis using None np
      by (simp add: related_increment_def related_set_def related_get_def)
  next
    case (Some v)
    then show ?thesis using np
      by (simp add: related_increment_def related_set_def related_get_def)
  qed
qed

lemma node_ok_round:
  assumes ok: "node_ok n" and sec: "second \<notin> set object_prototype_names"
  shows "node_ok (n\<lparr>total := num_add (total n) (Fin 1), mapped := False,
                    related := related_increment
                       (if related_get (related n) second = Undefined
                        then related_set (related n) second (Fin 0) else related n) second\<rparr>)"
proof (cases "map_of (related n) second")
  case None
  have "well_counted (AList.update second (Fin 1) (related n))"
    using ok by (intro well_counted_update) (simp_all add: node_ok_def)
  then show ?thesis
    using ok None related_sum_update_new[OF None]
    by (simp add: node_ok_def related_round[OF sec])
next
  case (Some v)
  then have "second \<in> fst ` set (related n)"
    by (metis map_of_eq_None_iff option.distinct(1))
  then obtain q where q: "map_of (related n) second = Some (Fin q)" "0 < q" "q \<in> \<int>"
    using well_counted_lookup[of "related n" second] ok by (auto simp: node_ok_def)
  have "well_counted (AList.update second (Fin (q + 1)) (related n))"
    using ok q by (intro well_counted_update) (simp_all add: node_ok_def)
  then show ?thesis
    using ok q related_sum_update_old[OF q(1)]
    by (simp add: node_ok_def related_round[OF sec])
qed

lemma node_ok_initNode: "node_ok initNode"
  by (simp add: node_ok_def initNode_def well_counted_def related_sum_def)

lemma list_all_update:
  "list_all (\<lambda>(w, n). P n) xs \<Longrightarrow> P v \<Longrightarrow> list_all (\<lambda>(w, n). P n) (AList.update k v xs)"
  by (induction xs) auto

lemma model_ok_lookup: "model_ok m \<Longrightarrow> map_of (nodes m) w = Some n \<Longrightarrow> node_ok n"
  by (auto simp: model_ok_def list_all_iff dest: map_of_SomeD)

lemma add_pair_ok:
  assumes "model_ok m" "second \<notin> set object_prototype_names"
  shows "model_ok (add_pair initNode first second m)"
proof -
  let ?ns = "if map_of (nodes m) first = None then AList.update first initNode (nodes m)
             else nodes m"
  have ns: "list_all (\<lambda>(w, n). node_ok n) ?ns"
    using assms(1) node_ok_initNode by (auto simp: model_ok_def intro: list_all_update)
  obtain n where n: "map_of ?ns first = Some n"
    by (cases "map_of (nodes m) first") (auto simp: update_conv')
  have "node_ok n" using ns n by (auto simp: list_all_iff dest: map_of_SomeD)
  then have ok': "node_ok (n\<lparr>total := num_add (total n) (Fin 1), mapped := False,
                    related := related_increment
                       (if related_get (related n) second = Undefined
                        then related_set (related n) second (Fin 0) else related n) second\<rparr>)"
    using node_ok_round[OF _ assms(2)] by blast
  have "nodes (add_pair initNode first second m)
      = AList.update first (n\<lparr>total := num_add (total n) (Fin 1), mapped := False,
                    related := related_increment
                       (if related_get (related n) second = Undefined
                        then related_set (related n) second (Fin 0) else related n) second\<rparr>) ?ns"
    using n by (simp add: add_pair_def Let_def)
  then show ?thesis
    using list_all_update[of node_ok ?ns, OF ns ok'] by (simp add: model_ok_def)
qed

lemma add_loop_ok:
  "model_ok m \<Longrightarrow> \<forall>w \<in> set (tl ws). w \<notin> set object_prototype_names
     \<Longrightarrow> model_ok (add_loop initNode ws m)"
proof (induction initNode ws m rule: add_loop.induct)
  case (1 first second rest m)
  then show ?case using add_pair_ok[of m second first] by simp
qed simp_all

lemma add_ok:
  assumes "model_ok m" "\<forall>w \<in> set (tokens s). w \<notin> set object_prototype_names"
  shows "model_ok (add s m)"
proof -
  have "\<forall>w \<in> set (tl (tokens s)). w \<notin> set object_prototype_names"
    using assms(2) by (cases "tokens s") auto
  then have "model_ok (add_loop initNode (tokens s) (m\<lparr>hasSentences := b\<rparr>))" for b
    using add_loop_ok[of "m\<lparr>hasSentences := b\<rparr>" "tokens s"] assms(1)
    by (simp add: model_ok_def)
  moreover have "model_ok (add_loop initNode (tokens s) m)"
    using add_loop_ok[of m "tokens s"] assms(1)
      \<open>\<forall>w \<in> set (tl (tokens s)). w \<notin> set object_prototype_names\<close> by simp
  ultimately show ?thesis using assms(1)
    by (auto simp: add_def add_with_def Let_def model_ok_def)
qed

lemma model_ok_new: "model_ok new_markov"
  by (simp add: model_ok_def new_markov_def)

theorem draw_after_add:
  assumes "\<forall>w \<in> set (tokens s). w \<notin> set object_prototype_names"
    and "model_ok m" and "map_of (nodes (add s m)) w = Some n"
    and "num_less (Fin 0) (total n)" and "0 \<le> u" "u < 1"
  shows "\<exists>x \<in> fst ` set (related n). fst (selectWeighted u n) = Inr (Some x)"
  using selectWeighted_node_ok[of n u] model_ok_lookup[OF add_ok[OF assms(2,1)] assms(3)] assms(4-6)
  by blast

text \<open>
  The sampling scenario of the specification on part\_000: after \<^verbatim>\<open>a x\<close> once and
  \<^verbatim>\<open>a y\<close> three times, the four rolls 0, 1, 2, 3 give \<^verbatim>\<open>x\<close>, \<^verbatim>\<open>y\<close>, \<^verbatim>\<open>y\<close>, \<^verbatim>\<open>y\<close>.
\<close>

lemma sampling_example:
  "map_of (nodes (add ''a x a y a y a y'' new_markov)) ''a''
     = Some \<lparr>total = Fin 4, mapped = False, sums_obj = None,
             related = [(''x'', Fin 1), (''y'', Fin 3)]\<rparr>
   \<and> fst (selectWeighted 0 \<lparr>total = Fin 4, mapped = False, sums_obj = None,
             related = [(''x'', Fin 1), (''y'', Fin 3)]\<rparr>) = Inr (Some ''x'')
   \<and> fst (selectWeighted (1/4) \<lparr>total = Fin 4, mapped = False, sums_obj = None,
             related = [(''x'', Fin 1), (''y'', Fin 3)]\<rparr>) = Inr (Some ''y'')
   \<and> fst (selectWeighted (1/2) \<lparr>total = Fin 4, mapped = False, sums_obj = None,
             related = [(''x'', Fin 1), (''y'', Fin 3)]\<rparr>) = Inr (Some ''y'')
   \<and> fst (selectWeighted (3/4) \<lparr>total = Fin 4, mapped = False, sums_obj = None,
             related = [(''x'', Fin 1), (''y'', Fin 3)]\<rparr>) = Inr (Some ''y'')"
  by code_simp

subsection \<open>Export and load in part\_000\<close>

text \<open>
  In part\_000 \<^verbatim>\<open>toJSON\<close> and \<^verbatim>\<open>load\<close> agree on the field names: loading the export
  of a model (a \<^verbatim>\<open>Map\<close> has distinct keys) gives the same size, edge counter and flag,
  and the same \<^verbatim>\<open>related\<close> and \<^verbatim>\<open>total\<close> for every word.
\<close>

lemma new_Map_fold:
  "distinct (map fst (acc @ xs)) \<Longrightarrow>
     fold (\<lambda>(k, v) acc. AList.update k v acc) xs acc = acc @ xs"
proof (induction xs arbitrary: acc)
  case Nil
  then show ?case by simp
next
  case (Cons x xs)
  obtain k v where x: "x = (k, v)" by (cases x)
  have fresh: "k \<notin> fst ` set acc" using Cons.prems x by auto
  have "distinct (map fst ((acc @ [(k, v)]) @ xs))" using Cons.prems x by simp
  then show ?case using Cons.IH[of "acc @ [(k, v)]"] x fresh by (simp add: update_fresh)
qed

lemma new_Map_distinct: "distinct (map fst xs) \<Longrightarrow> new_Map xs = xs"
  using new_Map_fold[of "[]" xs] by (simp add: new_Map_def)

lemma finalize_keys: "map fst (nodes (finalize m)) = map fst (nodes m)"
  by (simp add: finalize_def case_prod_unfold comp_def)

lemma finalize_related:
  "map_option related (map_of (nodes (finalize m)) w) = map_option related (map_of (nodes m) w)"
proof -
  have "map_option related (map_of (map (\<lambda>(w, n). (w, calculateWeights n False)) xs) w)
      = map_option related (map_of xs w)" for xs
    by (induction xs) (auto simp: calculateWeights_def)
  then show ?thesis by (simp add: finalize_def)
qed

lemma load_toJSON_roundtrip:
  assumes "distinct (map fst (nodes m))"
  shows "size_of (load (fst (toJSON m)) m0) = size_of m
       \<and> edges (load (fst (toJSON m)) m0) = edges m
       \<and> hasSentences (load (fst (toJSON m)) m0) = hasSentences m
       \<and> map_option related (map_of (nodes (load (fst (toJSON m)) m0)) w)
           = map_option related (map_of (nodes m) w)
       \<and> map_option total (map_of (nodes (load (fst (toJSON m)) m0)) w)
           = map_option total (map_of (nodes m) w)"
proof -
  have d: "distinct (map fst (nodes (finalize m)))" using assms by (simp add: finalize_keys)
  have n: "nodes (load (fst (toJSON m)) m0) = nodes (finalize m)"
    by (simp add: load_def toJSON_def Let_def new_Map_distinct[OF d])
  have l: "length (nodes (finalize m)) = length (nodes m)"
    by (simp add: finalize_def)
  have t: "map_option total (map_of (map (\<lambda>(w, n). (w, calculateWeights n False)) xs) w)
      = map_option total (map_of xs w)" for xs
    by (induction xs) (auto simp: calculateWeights_def)
  show ?thesis
    using n l finalize_related[of m w] t[of "nodes m"]
    by (simp add: size_of_def load_def toJSON_def Let_def finalize_def)
qed

end
